theory Spec2Isabelle
  imports Main "HOL-Library.Sublist"
begin

section \<open>Strings\<close>

text \<open>
  A Python \<open>str\<close> is modelled as a \<open>string\<close> holding its UTF-8 bytes. Concatenation,
  \<open>startswith\<close>, the \<open>in\<close> test, slicing off a matched prefix, \<open>replace\<close> of an ASCII
  character and \<open>splitlines\<close> act on the bytes as Python acts on the code points.
  \<open>lower\<close> and \<open>split\<close> are modelled for ASCII text only: the letters \<open>A\<close> to \<open>Z\<close>
  are the cased letters and the white space is that below 128.
\<close>

text \<open>\<open>s.startswith(p)\<close>\<close>

fun startswith :: "string \<Rightarrow> string \<Rightarrow> bool" where
  "startswith s [] = True"
| "startswith [] (p # ps) = False"
| "startswith (c # cs) (p # ps) = (c = p \<and> startswith cs ps)"

text \<open>\<open>needle in hay\<close> on strings: some position of \<open>hay\<close> starts with \<open>needle\<close>.\<close>

fun str_contains :: "string \<Rightarrow> string \<Rightarrow> bool" where
  "str_contains needle [] = (needle = [])"
| "str_contains needle (c # cs) = (startswith (c # cs) needle \<or> str_contains needle cs)"

text \<open>\<open>s.replace(old, new)\<close> for a pattern \<open>old\<close> of one character, the only use in the source.\<close>

fun str_replace :: "char \<Rightarrow> string \<Rightarrow> string \<Rightarrow> string" where
  "str_replace old new [] = []"
| "str_replace old new (c # cs) =
     (if c = old then new @ str_replace old new cs else c # str_replace old new cs)"

text \<open>
  \<open>str.lower()\<close> on one character of an ASCII text: the letters \<open>A\<close> to \<open>Z\<close> become
  \<open>a\<close> to \<open>z\<close>, every other ASCII character stays. Letters outside ASCII, which
  \<open>str.lower()\<close> lowers too, are outside this model: statements that depend on
  lowercasing are made for ASCII texts.
\<close>

definition lower_char :: "char \<Rightarrow> char" where
  "lower_char c =
     (if (65::nat) \<le> of_char c \<and> of_char c \<le> (90::nat)
      then char_of (of_char c + (32::nat)) else c)"

text \<open>\<open>s.lower()\<close>\<close>

definition lower :: "string \<Rightarrow> string" where
  "lower s = map lower_char s"

text \<open>
  The ASCII characters \<open>str.split()\<close> treats as white space: tab, line feed, vertical
  tab, form feed, carriage return, the separators 0x1C to 0x1F, and the space. White
  space outside ASCII, at which \<open>str.split()\<close> splits too, is outside this model:
  statements that depend on splitting are made for ASCII texts.
\<close>

definition is_space :: "char \<Rightarrow> bool" where
  "is_space c = (of_char c \<in> {9::nat, 10, 11, 12, 13, 28, 29, 30, 31, 32})"

text \<open>
  \<open>s.split()\<close>: the maximal runs of characters that are not white space, in order.
  \<open>cur\<close> is the run being read, reversed.
\<close>

fun split_aux :: "string \<Rightarrow> string \<Rightarrow> string list" where
  "split_aux cur [] = (if cur = [] then [] else [rev cur])"
| "split_aux cur (c # cs) =
     (if is_space c then (if cur = [] then split_aux [] cs else rev cur # split_aux [] cs)
      else split_aux (c # cur) cs)"

definition split :: "string \<Rightarrow> string list" where
  "split s = split_aux [] s"

text \<open>
  \<open>s.splitlines()\<close>: the lines of \<open>s\<close> without their line boundaries; a boundary at the
  very end opens no further line. The boundaries are line feed, carriage return,
  carriage return followed by line feed, vertical tab, form feed, the separators 0x1C
  to 0x1E, and, as they stand in UTF-8, next line U+0085, line separator U+2028 and
  paragraph separator U+2029. \<open>cur\<close> is the line being read, reversed.
\<close>

definition is_linebreak :: "char \<Rightarrow> bool" where
  "is_linebreak c = (of_char c \<in> {10::nat, 11, 12, 13, 28, 29, 30})"

function splitlines_aux :: "string \<Rightarrow> string \<Rightarrow> string list" where
  "splitlines_aux cur [] = (if cur = [] then [] else [rev cur])"
| "splitlines_aux cur (c # cs) =
     (if startswith (c # cs) [CHR 0x0D, CHR 0x0A] then rev cur # splitlines_aux [] (drop 1 cs)
      else if is_linebreak c then rev cur # splitlines_aux [] cs
      else if startswith (c # cs) [CHR 0xC2, CHR 0x85] then rev cur # splitlines_aux [] (drop 1 cs)
      else if startswith (c # cs) [CHR 0xE2, CHR 0x80, CHR 0xA8]
              \<or> startswith (c # cs) [CHR 0xE2, CHR 0x80, CHR 0xA9]
           then rev cur # splitlines_aux [] (drop 2 cs)
      else splitlines_aux (c # cur) cs)"
  by pat_completeness auto
termination
  by (relation "measure (\<lambda>(cur, s). length s)") auto

definition splitlines :: "string \<Rightarrow> string list" where
  "splitlines s = splitlines_aux [] s"

text \<open>\<open>str(n)\<close> for a length: the decimal digits of a natural number.\<close>

fun str_of_nat :: "nat \<Rightarrow> string" where
  "str_of_nat n =
     (if n < 10 then [char_of (48 + n)]
      else str_of_nat (n div 10) @ [char_of (48 + n mod 10)])"

declare str_of_nat.simps [simp del]

text \<open>\<open>s.strip(chars)\<close> for one character: it is removed from both ends.\<close>

definition strip :: "char \<Rightarrow> string \<Rightarrow> string" where
  "strip c s = rev (dropWhile (\<lambda>x. x = c) (rev (dropWhile (\<lambda>x. x = c) s)))"

section \<open>Dictionaries\<close>

text \<open>
  A Python \<open>dict\<close> keeps its keys in insertion order; assigning to a key that is present
  replaces the value where the key stands. It is modelled as an association list.
\<close>

type_synonym ('k, 'v) dict = "('k \<times> 'v) list"

text \<open>\<open>d[k] = v\<close>\<close>

fun dict_set :: "('k, 'v) dict \<Rightarrow> 'k \<Rightarrow> 'v \<Rightarrow> ('k, 'v) dict" where
  "dict_set [] k v = [(k, v)]"
| "dict_set ((k', v') # d) k v =
     (if k' = k then (k, v) # d else (k', v') # dict_set d k v)"

text \<open>\<open>{key(x): val(x) for x in xs}\<close>\<close>

definition dict_comprehension :: "('a \<Rightarrow> 'k) \<Rightarrow> ('a \<Rightarrow> 'v) \<Rightarrow> 'a list \<Rightarrow> ('k, 'v) dict" where
  "dict_comprehension key val xs = foldl (\<lambda>d x. dict_set d (key x) (val x)) [] xs"

text \<open>\<open>d.get(k)\<close>\<close>

definition dict_get :: "('k, 'v) dict \<Rightarrow> 'k \<Rightarrow> 'v option" where
  "dict_get d k = map_of d k"

text \<open>\<open>list(d.values())\<close> and \<open>list(d)\<close>\<close>

definition dict_values :: "('k, 'v) dict \<Rightarrow> 'v list" where
  "dict_values d = map snd d"

definition dict_keys :: "('k, 'v) dict \<Rightarrow> 'k list" where
  "dict_keys d = map fst d"

text \<open>\<open>a == b\<close> on dictionaries compares the items and ignores their order.\<close>

definition dict_eq :: "('k, 'v) dict \<Rightarrow> ('k, 'v) dict \<Rightarrow> bool" where
  "dict_eq a b = (set a = set b)"

section \<open>Data model\<close>

record TargetInfo =
  title :: string

record Uf2TargetInfo = TargetInfo +
  path :: string
  family :: "string option"
  model :: "string option"
  board_id :: "string option"

text \<open>
  An entry of a variant's \<open>downloads\<close> list and a variant of the catalogue are dictionaries
  read from JSON; the field \<open>d_k\<close> is the entry \<open>d["k"]\<close> and the field \<open>v_k\<close> is the
  entry \<open>variant["k"]\<close>. Only \<open>title\<close> may be missing.
\<close>

record download =
  d_version :: string
  d_url :: string

record variant =
  v_vendor :: string
  v_model :: string
  v_family :: string
  v_title :: "string option"
  v_info_url :: string
  v_downloads :: "download list"

datatype error = AssertionError | OSError | UnicodeDecodeError

datatype log_record =
  LogException string
  | LogError string string
  | LogInfo string string

text \<open>
  What the dialog reads from outside: the platform test \<open>sys.platform == "win32"\<close>, the
  paths \<open>list_volumes(skip_letters=["A"])\<close> returns, whether \<open>INFO_UF2.TXT\<close> is a file
  at the root of a volume when the volumes are scanned, what asserting, opening and
  reading that file gives when the target info is created (the text, or the error
  raised: the volume may have gone since the scan), and what
  \<open>get_win_volume_name\<close> gives for a path.
\<close>

record env =
  platform_win32 :: bool
  list_volumes :: "string list"
  info_isfile :: "string \<Rightarrow> bool"
  info_read :: "string \<Rightarrow> error + string"
  get_win_volume_name :: "string \<Rightarrow> error + string"

section \<open>Metadata parser\<close>

text \<open>
  \<open>find_uf2_property(lines, prop_name)\<close>: the loop returns at the first line that starts
  with the marker; falling out of the loop returns \<open>None\<close>.
\<close>

fun find_uf2_property :: "string list \<Rightarrow> string \<Rightarrow> string option" where
  "find_uf2_property [] prop_name = None"
| "find_uf2_property (line # lines) prop_name =
     (let marker = prop_name @ '': '' in
      if startswith line marker then Some (drop (length marker) line)
      else find_uf2_property lines prop_name)"

text \<open>\<open>_describe_target_path\<close>: the title and what is logged.\<close>

definition describe_target_path :: "env \<Rightarrow> string \<Rightarrow> string \<times> log_record list" where
  "describe_target_path e p =
     (if platform_win32 e then
        (case get_win_volume_name e p of
           Inr label \<Rightarrow> (label @ '' ('' @ strip (CHR 0x5C) p @ '')'', [])
         | Inl _ \<Rightarrow> (p, [LogError ''Could not query volume name for %r'' p]))
      else (p, []))"

text \<open>The \<open>for\<close> loop over the family keywords, with its \<open>else\<close> branch.\<close>

fun scan_keywords :: "string list \<Rightarrow> string \<Rightarrow> string option" where
  "scan_keywords [] normalized_content = None"
| "scan_keywords (keyword # keywords) normalized_content =
     (if str_contains keyword normalized_content then Some keyword
      else scan_keywords keywords normalized_content)"

definition family_keywords :: "string list" where
  "family_keywords = [''samd21'', ''samd51'', ''nrf51'', ''nrf52'', ''esp32s3'', ''esp32s3'']"

definition normalize_content :: "string \<Rightarrow> string" where
  "normalize_content info_content =
     str_replace (CHR ''-'') [] (str_replace (CHR ''_'') [] (str_replace (CHR '' '') []
       (lower info_content)))"

definition create_target_info :: "env \<Rightarrow> string \<Rightarrow> (error + Uf2TargetInfo) \<times> log_record list" where
  "create_target_info e p =
     (case info_read e p of
        Inl err \<Rightarrow> (Inl err, [])
      | Inr info_content \<Rightarrow>
          (let info_lines = splitlines info_content;
               normalized_content = normalize_content info_content;
               model' = find_uf2_property info_lines ''Model'';
               board_id' = find_uf2_property info_lines ''Board-ID'';
               family' = (if str_contains ''boardid:rpirp2'' normalized_content then Some ''rp2''
                          else scan_keywords family_keywords normalized_content);
               (title', logs) = describe_target_path e p
           in (Inr \<lparr>title = title', path = p, family = family', model = model',
                    board_id = board_id'\<rparr>, logs)))"

text \<open>
  \<open>find_targets\<close>: the loop over the candidate paths. An error of \<open>_create_target_info\<close>
  is caught and logged, and the loop goes on.
\<close>

fun find_targets_loop ::
  "env \<Rightarrow> string list \<Rightarrow> (string, Uf2TargetInfo) dict \<times> log_record list \<Rightarrow>
   (string, Uf2TargetInfo) dict \<times> log_record list" where
  "find_targets_loop e [] acc = acc"
| "find_targets_loop e (p # paths) (result, logs) =
     (case create_target_info e p of
        (Inr target_info, l) \<Rightarrow>
          find_targets_loop e paths (dict_set result (title target_info) target_info, logs @ l)
      | (Inl err, l) \<Rightarrow>
          find_targets_loop e paths
            (result, logs @ l @ [LogException ''Could not create target info'']))"

definition candidate_paths :: "env \<Rightarrow> string list" where
  "candidate_paths e = filter (info_isfile e) (list_volumes e)"

definition find_targets :: "env \<Rightarrow> (string, Uf2TargetInfo) dict \<times> log_record list" where
  "find_targets e = find_targets_loop e (candidate_paths e) ([], [])"


section \<open>Target matcher\<close>

text \<open>\<open>_create_variant_description\<close>; the bullet U+2022 is three bytes in UTF-8.\<close>

definition bullet :: string where
  "bullet = [CHR 0xE2, CHR 0x80, CHR 0xA2]"

definition create_variant_description :: "variant \<Rightarrow> string" where
  "create_variant_description v =
     v_vendor v @ '' '' @ bullet @ '' '' @ (case v_title v of Some t \<Rightarrow> t | None \<Rightarrow> v_model v)"

definition extract_normalized_words :: "string \<Rightarrow> string set" where
  "extract_normalized_words text =
     set (split (lower (str_replace (CHR ''-'') [] (str_replace (CHR ''_'') '' '' text))))"

definition variant_is_meant_for_target :: "variant \<Rightarrow> Uf2TargetInfo \<Rightarrow> bool" where
  "variant_is_meant_for_target v target =
     (case family target of
        None \<Rightarrow> False
      | Some target_family \<Rightarrow>
          if \<not> startswith (v_family v) target_family then False
          else (case model target of
                  None \<Rightarrow> False
                | Some target_model \<Rightarrow>
                    extract_normalized_words target_model = extract_normalized_words (v_model v)
                    \<or> extract_normalized_words (target_model @ '' '' @ v_vendor v)
                        = extract_normalized_words (v_model v @ '' '' @ v_vendor v)))"

text \<open>The two dictionaries \<open>_handle_new_target\<close> builds from the downloaded variants.\<close>

definition whole_mapping :: "variant list \<Rightarrow> (string, variant) dict" where
  "whole_mapping variants = dict_comprehension create_variant_description (\<lambda>v. v) variants"

definition filtered_mapping :: "Uf2TargetInfo \<Rightarrow> variant list \<Rightarrow> (string, variant) dict" where
  "filtered_mapping target variants =
     (let whole = whole_mapping variants in
      case family target of
        Some target_family \<Rightarrow>
          (let filtered = dict_comprehension fst snd
                 (filter (\<lambda>item. startswith (v_family (snd item)) target_family) whole)
           in if filtered = [] then whole else filtered)
      | None \<Rightarrow> whole)"

section \<open>Selection controller\<close>

text \<open>
  Modelled from the spec: the class \<open>MappingCombobox\<close> of \<open>thonny.ui_utils\<close>, which the
  dialog uses for its three pickers and which is not part of the source at hand. A
  picker shows a set of entries, a dictionary from descriptions to values, and holds,
  independently of it, one selection slot: the description it displays, empty when
  nothing is picked. The value selected is the one the shown dictionary binds to the
  description in the slot, so a selection means something only while the set it was
  taken from is shown.
\<close>

record 'v MappingCombobox =
  mapping :: "(string, 'v) dict"
  description :: string

text \<open>
  Modelled from the spec: \<open>set_mapping\<close> of the picker, which replaces the shown set and
  nothing else; clearing the selection is an action of its own.
\<close>

definition set_mapping :: "(string, 'v) dict \<Rightarrow> 'v MappingCombobox \<Rightarrow> 'v MappingCombobox" where
  "set_mapping m c = c\<lparr>mapping := m\<rparr>"

text \<open>
  The search of \<open>select_value\<close> through the shown entries, in their order, for the first
  one that holds the value.
\<close>

fun description_of :: "(string, 'v) dict \<Rightarrow> 'v \<Rightarrow> string option" where
  "description_of [] v = None"
| "description_of ((desc, x) # d) v = (if x = v then Some desc else description_of d v)"

text \<open>
  Modelled from the spec: \<open>select_value\<close> of the picker, which selects a value of the
  shown set by displaying its description. The dialog only ever selects a value of the
  set it has just shown; for any other value the slot is left as it is here.
\<close>

definition select_value :: "'v \<Rightarrow> 'v MappingCombobox \<Rightarrow> 'v MappingCombobox" where
  "select_value v c =
     (case description_of (mapping c) v of
        Some desc \<Rightarrow> c\<lparr>description := desc\<rparr>
      | None \<Rightarrow> c)"

text \<open>Modelled from the spec: \<open>select_none\<close> of the picker, which clears the selection.\<close>

definition select_none :: "'v MappingCombobox \<Rightarrow> 'v MappingCombobox" where
  "select_none c = c\<lparr>description := []\<rparr>"

text \<open>
  Modelled from the spec: \<open>get_selected_value\<close> of the picker, the value of the shown
  set under the description in the slot, or \<open>None\<close> when the shown set has no such entry.
\<close>

definition get_selected_value :: "'v MappingCombobox \<Rightarrow> 'v option" where
  "get_selected_value c = dict_get (mapping c) (description c)"

text \<open>
  The fields of the dialog. \<open>state\<close> is \<open>_state\<close> of the work dialog; the labels hold the
  text they show, the variant info label also its link; \<open>logged\<close> is what went to the
  logger, and \<open>appended_text\<close>, \<open>action_text\<close> and \<open>progress_widgets\<close> are what the work
  dialog shows of the failed download.
\<close>

record BaseFlasher =
  downloaded_variants :: "variant list"
  last_handled_target :: "Uf2TargetInfo option"
  last_handled_variant :: "variant option"
  target_combo :: "Uf2TargetInfo MappingCombobox"
  variant_combo :: "variant MappingCombobox"
  version_combo :: "string MappingCombobox"
  target_info_label :: string
  target_info_content_label :: string
  variant_info_content_label :: "string \<times> string option"
  state :: string
  logged :: "log_record list"
  appended_text :: string
  action_text :: string
  progress_widgets :: bool

text \<open>
  The dialog as \<open>__init__\<close> and \<open>populate_main_frame\<close> leave it: no variants, nothing
  handled, three empty pickers. Its state is taken to be \<open>idle\<close>, the one state in which
  \<open>update_ui\<close> refreshes the pickers.
\<close>

definition new_flasher :: BaseFlasher where
  "new_flasher =
     \<lparr>downloaded_variants = [], last_handled_target = None, last_handled_variant = None,
      target_combo = \<lparr>mapping = [], description = []\<rparr>,
      variant_combo = \<lparr>mapping = [], description = []\<rparr>,
      version_combo = \<lparr>mapping = [], description = []\<rparr>,
      target_info_label = ''model'', target_info_content_label = [],
      variant_info_content_label = ([], None), state = ''idle'', logged = [],
      appended_text = [], action_text = [], progress_widgets = False\<rparr>"

definition variants_url :: string where
  "variants_url =
     ''https://raw.githubusercontent.com/thonny/thonny/master/data/micropython-variants-uf2.json''"

text \<open>
  \<open>_download_variants\<close>, run once by the background thread: the request gives a parsed
  catalogue or fails, and only a success assigns \<open>_downloaded_variants\<close>.
\<close>

datatype fetch_outcome = Fetched "variant list" | FetchFailed

definition download_variants :: "fetch_outcome \<Rightarrow> BaseFlasher \<Rightarrow> BaseFlasher" where
  "download_variants outcome s =
     (case outcome of
        Fetched variants \<Rightarrow>
          s\<lparr>downloaded_variants := variants,
            logged := logged s @ [LogInfo ''Downloading %r'' variants_url,
                                  LogInfo ''Got %r variants'' (str_of_nat (length variants))]\<rparr>
      | FetchFailed \<Rightarrow>
          (let msg = ''Could not download variants info from '' @ variants_url in
           s\<lparr>logged := logged s @ [LogInfo ''Downloading %r'' variants_url, LogException msg],
             appended_text := appended_text s @ msg @ [CHR 0x0A],
             action_text := ''Error!'',
             progress_widgets := True\<rparr>))"

definition show_new_targets :: "(string, Uf2TargetInfo) dict \<Rightarrow> BaseFlasher \<Rightarrow> BaseFlasher" where
  "show_new_targets targets s =
     (let combo = set_mapping targets (target_combo s) in
      case dict_values targets of
        [t] \<Rightarrow> s\<lparr>target_combo := select_value t combo\<rparr>
      | _ \<Rightarrow> s\<lparr>target_combo := select_none combo\<rparr>)"

text \<open>
  \<open>_update_target_info\<close>: the text and the label are computed from the target picker,
  then set.
\<close>

definition target_info_text :: "Uf2TargetInfo MappingCombobox \<Rightarrow> string \<times> string" where
  "target_info_text combo =
     (case get_selected_value combo of
        Some current_target \<Rightarrow>
          (if model current_target \<noteq> None \<and> model current_target \<noteq> Some [] then
             (if model current_target = Some ''Raspberry Pi RP2'' then (''RP2'', ''family'')
              else (the (model current_target), ''model''))
           else if board_id current_target \<noteq> None \<and> board_id current_target \<noteq> Some [] then
             (the (board_id current_target), ''board id'')
           else if family current_target \<noteq> None \<and> family current_target \<noteq> Some [] then
             (the (family current_target), ''family'')
           else (''Unknown board'', ''info''))
      | None \<Rightarrow>
          (if mapping combo = [] then (''[no suitable targets detected]'', [])
           else (''[found '' @ str_of_nat (length (mapping combo))
                 @ '' targets, please select one]'', [])))"

definition update_target_info :: "BaseFlasher \<Rightarrow> BaseFlasher" where
  "update_target_info s =
     (let (text, label) = target_info_text (target_combo s)
      in s\<lparr>target_info_content_label := text, target_info_label := label\<rparr>)"

text \<open>
  \<open>_update_variant_info\<close>: the text and the link are computed from the downloaded
  variants and the variant picker, then set.
\<close>

definition variant_info_text :: "variant list \<Rightarrow> variant MappingCombobox \<Rightarrow> string \<times> string option" where
  "variant_info_text variants combo =
     (if variants = [] then (''[downloading variants info ...]'', None)
      else (case get_selected_value combo of
              Some current_variant \<Rightarrow> (v_info_url current_variant, Some (v_info_url current_variant))
            | None \<Rightarrow>
                (if mapping combo \<noteq> [] then
                   (''[select one from '' @ str_of_nat (length (mapping combo))
                    @ '' variants]'', None)
                 else ([], None))))"

definition update_variant_info :: "BaseFlasher \<Rightarrow> BaseFlasher" where
  "update_variant_info s =
     (let (text, url) = variant_info_text (downloaded_variants s) (variant_combo s)
      in s\<lparr>variant_info_content_label := (text, url)\<rparr>)"

text \<open>\<open>_handle_new_target\<close>; the assertion fails on an empty catalogue.\<close>

definition handle_new_target :: "Uf2TargetInfo \<Rightarrow> BaseFlasher \<Rightarrow> error + BaseFlasher" where
  "handle_new_target target s =
     (if downloaded_variants s = [] then Inl AssertionError
      else
        (let filtered = filtered_mapping target (downloaded_variants s);
             prev_variant = get_selected_value (variant_combo s);
             combo = set_mapping filtered (variant_combo s);
             matches = filter (\<lambda>v. variant_is_meant_for_target v target) (dict_values filtered)
         in case matches of
              [m] \<Rightarrow> Inr (s\<lparr>variant_combo := select_value m combo\<rparr>)
            | _ \<Rightarrow>
                (case prev_variant of
                   Some prev \<Rightarrow>
                     if prev \<in> set (dict_values filtered)
                     then Inr (s\<lparr>variant_combo := select_value prev combo\<rparr>)
                     else Inr (s\<lparr>variant_combo := combo\<rparr>)
                 | None \<Rightarrow> Inr (s\<lparr>variant_combo := combo\<rparr>))))"

definition versions_mapping :: "variant \<Rightarrow> (string, string) dict" where
  "versions_mapping v = dict_comprehension d_version d_url (v_downloads v)"

definition handle_new_variant :: "variant \<Rightarrow> BaseFlasher \<Rightarrow> BaseFlasher" where
  "handle_new_variant v s =
     (let versions = versions_mapping v;
          combo = set_mapping versions (version_combo s)
      in case dict_values versions of
           first # _ \<Rightarrow> s\<lparr>version_combo := select_value first combo\<rparr>
         | [] \<Rightarrow> s\<lparr>version_combo := select_none combo\<rparr>)"

text \<open>
  \<open>update_ui\<close> in its steps. Lines 89 to 92: the volumes are scanned, and a changed set of
  targets is shown and resets the last handled target.
\<close>

definition refresh_targets :: "env \<Rightarrow> BaseFlasher \<Rightarrow> BaseFlasher" where
  "refresh_targets e s =
     (let (targets, logs) = find_targets e;
          s1 = s\<lparr>logged := logged s @ logs\<rparr>
      in if \<not> dict_eq targets (mapping (target_combo s1))
         then (show_new_targets targets s1)\<lparr>last_handled_target := None\<rparr>
         else s1)"

text \<open>
  Lines 94 to 101: the variants follow the selected target. A target info is an object
  and never counts as false, so \<open>not current_target\<close> is the test for \<open>None\<close>.
\<close>

definition refresh_variants :: "BaseFlasher \<Rightarrow> error + BaseFlasher" where
  "refresh_variants s =
     (case get_selected_value (target_combo s) of
        None \<Rightarrow> Inr (s\<lparr>variant_combo := select_none (set_mapping [] (variant_combo s))\<rparr>)
      | Some current_target \<Rightarrow>
          if Some current_target \<noteq> last_handled_target s \<and> downloaded_variants s \<noteq> [] then
            (case handle_new_target current_target s of
               Inl err \<Rightarrow> Inl err
             | Inr s1 \<Rightarrow>
                 Inr (s1\<lparr>last_handled_target := Some current_target,
                         last_handled_variant := None\<rparr>))
          else Inr s)"

text \<open>
  Lines 104 to 110: the versions follow the selected variant. A variant of the catalogue
  has entries and never counts as false, so \<open>not current_variant\<close> is the test for
  \<open>None\<close>.
\<close>

definition refresh_versions :: "BaseFlasher \<Rightarrow> BaseFlasher" where
  "refresh_versions s =
     (case get_selected_value (variant_combo s) of
        None \<Rightarrow> s\<lparr>version_combo := set_mapping [] (select_none (version_combo s))\<rparr>
      | Some current_variant \<Rightarrow>
          if Some current_variant \<noteq> last_handled_variant s then
            (handle_new_variant current_variant s)\<lparr>last_handled_variant := Some current_variant\<rparr>
          else s)"

text \<open>
  \<open>update_ui\<close>: nothing of the above runs unless the dialog is idle. The inherited
  \<open>update_ui\<close> of the work dialog, called last, touches none of the fields modelled here.
\<close>

definition update_ui :: "env \<Rightarrow> BaseFlasher \<Rightarrow> error + BaseFlasher" where
  "update_ui e s =
     (if state s = ''idle'' then
        (case refresh_variants (refresh_targets e s) of
           Inl err \<Rightarrow> Inl err
         | Inr s1 \<Rightarrow> Inr (update_variant_info (refresh_versions (update_target_info s1))))
      else Inr s)"

section \<open>Definitions for the statements\<close>

text \<open>
  The normalized content in the words of the specification: lowercased, with spaces,
  underscores and hyphens stripped.
\<close>

definition stripped_lowercase :: "string \<Rightarrow> string" where
  "stripped_lowercase content =
     filter (\<lambda>c. c \<noteq> CHR '' '' \<and> c \<noteq> CHR ''_'' \<and> c \<noteq> CHR ''-'') (map lower_char content)"

text \<open>An environment of one volume whose \<open>INFO_UF2.TXT\<close> reads as the given text.\<close>

definition example_env :: "string \<Rightarrow> env" where
  "example_env content =
     \<lparr>platform_win32 = False, list_volumes = [''/media/RPI-RP2''],
      info_isfile = (\<lambda>p. True), info_read = (\<lambda>p. Inr content),
      get_win_volume_name = (\<lambda>p. Inl OSError)\<rparr>"







text \<open>A variant and a target for the examples.\<close>

definition example_variant :: "string \<Rightarrow> string \<Rightarrow> string \<Rightarrow> variant" where
  "example_variant vendor model' family' =
     \<lparr>v_vendor = vendor, v_model = model', v_family = family', v_title = None,
      v_info_url = ''https://example.org/'' @ model', v_downloads = []\<rparr>"

definition example_target :: "string option \<Rightarrow> string option \<Rightarrow> Uf2TargetInfo" where
  "example_target family' model' =
     \<lparr>title = ''/media/BOOT'', path = ''/media/BOOT'', family = family', model = model',
      board_id = None\<rparr>"

text \<open>The second half of a variant's description: the title when present, otherwise the model.\<close>

definition title_or_model :: "variant \<Rightarrow> string" where
  "title_or_model v = (case v_title v of Some t \<Rightarrow> t | None \<Rightarrow> v_model v)"

text \<open>
  The selection \<open>_handle_new_target\<close> leaves: the one exact match; else the variant
  selected before, when it is a value of the filtered mapping; else what the filtered
  mapping binds to the description the picker still displays.
\<close>

definition selection_after ::
  "(string, variant) dict \<Rightarrow> Uf2TargetInfo \<Rightarrow> variant MappingCombobox \<Rightarrow> variant option" where
  "selection_after filtered target combo =
     (case filter (\<lambda>v. variant_is_meant_for_target v target) (dict_values filtered) of
        [m] \<Rightarrow> Some m
      | _ \<Rightarrow> (case get_selected_value combo of
                Some p \<Rightarrow> if p \<in> set (dict_values filtered) then Some p
                          else dict_get filtered (description combo)
              | None \<Rightarrow> dict_get filtered (description combo)))"

text \<open>
  A catalogue of three variants, and the dialog with this catalogue downloaded, all of
  it shown in the variant picker and the given variant, if any, selected there.
\<close>

definition example_catalog :: "variant list" where
  "example_catalog =
     [example_variant ''Pi'' ''Pico'' ''rp2'', example_variant ''Ada'' ''Feather'' ''samd21'',
      example_variant ''Pi'' ''Pico W'' ''rp2040'']"

definition example_flasher :: "variant option \<Rightarrow> BaseFlasher" where
  "example_flasher prev =
     new_flasher\<lparr>downloaded_variants := example_catalog,
                 variant_combo :=
                   (case prev of
                      Some v \<Rightarrow> select_value v \<lparr>mapping = whole_mapping example_catalog, description = []\<rparr>
                    | None \<Rightarrow> \<lparr>mapping = whole_mapping example_catalog, description = []\<rparr>)\<rparr>"

text \<open>The target infos that can be created for a list of paths, in order.\<close>

definition created_targets :: "env \<Rightarrow> string list \<Rightarrow> Uf2TargetInfo list" where
  "created_targets e ps =
     List.map_filter (\<lambda>p. case fst (create_target_info e p) of Inr t \<Rightarrow> Some t | Inl err \<Rightarrow> None) ps"

text \<open>
  Four volumes: two with a readable \<open>INFO_UF2.TXT\<close>, one whose file cannot be read, and
  one without the file.
\<close>

definition example_volumes :: env where
  "example_volumes =
     \<lparr>platform_win32 = False,
      list_volumes = [''/media/A'', ''/media/B'', ''/media/C'', ''/media/D''],
      info_isfile = (\<lambda>p. p \<noteq> ''/media/C''),
      info_read = (\<lambda>p. if p = ''/media/B'' then Inl OSError else Inr ''Model: Foo Board''),
      get_win_volume_name = (\<lambda>p. Inl OSError)\<rparr>"

text \<open>
  The variants are settled when a refresh has nothing to do for them: no target is
  selected and the variant picker is empty, or the selected target is the last handled
  one, or no catalogue is there. Likewise for the versions.
\<close>

definition variants_settled :: "BaseFlasher \<Rightarrow> bool" where
  "variants_settled s =
     (case get_selected_value (target_combo s) of
        None \<Rightarrow> variant_combo s = \<lparr>mapping = [], description = []\<rparr>
      | Some t \<Rightarrow> last_handled_target s = Some t \<or> downloaded_variants s = [])"

definition versions_settled :: "BaseFlasher \<Rightarrow> bool" where
  "versions_settled s =
     (case get_selected_value (variant_combo s) of
        None \<Rightarrow> version_combo s = \<lparr>mapping = [], description = []\<rparr>
      | Some v \<Rightarrow> last_handled_variant s = Some v)"

text \<open>
  The user picks the entry of a description in a picker, and the picker displays it; the
  picks below are picks in the target picker and in the variant picker of the dialog.
\<close>

definition user_picks :: "string \<Rightarrow> 'v MappingCombobox \<Rightarrow> 'v MappingCombobox" where
  "user_picks desc c = c\<lparr>description := desc\<rparr>"

definition pick_target :: "string \<Rightarrow> BaseFlasher \<Rightarrow> BaseFlasher" where
  "pick_target desc s = s\<lparr>target_combo := user_picks desc (target_combo s)\<rparr>"

definition pick_variant :: "string \<Rightarrow> BaseFlasher \<Rightarrow> BaseFlasher" where
  "pick_variant desc s = s\<lparr>variant_combo := user_picks desc (variant_combo s)\<rparr>"

text \<open>The next step of a run that has not raised.\<close>

definition and_then :: "error + 'a \<Rightarrow> ('a \<Rightarrow> error + 'b) \<Rightarrow> error + 'b" where
  "and_then r f = (case r of Inl err \<Rightarrow> Inl err | Inr x \<Rightarrow> f x)"

text \<open>
  Two boards in bootloader mode, one of the family \<open>rp2\<close> and one of the family
  \<open>samd21\<close>, neither declaring a model; and the target info of the first.
\<close>

definition two_boards :: env where
  "two_boards =
     \<lparr>platform_win32 = False,
      list_volumes = [''/media/RP2'', ''/media/SAMD''],
      info_isfile = (\<lambda>p. True),
      info_read = (\<lambda>p. if p = ''/media/RP2'' then Inr ''Board-ID: RPI-RP2''
                        else Inr ''Board-ID: SAMD21-Feather''),
      get_win_volume_name = (\<lambda>p. Inl OSError)\<rparr>"

definition rp2_board :: Uf2TargetInfo where
  "rp2_board =
     \<lparr>title = ''/media/RP2'', path = ''/media/RP2'', family = Some ''rp2'', model = None,
      board_id = Some ''RPI-RP2''\<rparr>"

text \<open>
  A run of the dialog with the two boards and the example catalogue downloaded: after
  the first refresh the user picks the \<open>rp2\<close> board, then the variant \<open>Pico\<close>, then the
  \<open>samd21\<close> board, and then the \<open>rp2\<close> board again, with a refresh after each pick.
  \<open>revisit_before\<close> is the dialog after the last pick, \<open>revisit_after\<close> after the refresh
  that follows it.
\<close>

definition revisit_before :: "error + BaseFlasher" where
  "revisit_before =
     and_then (and_then (and_then (and_then
       (update_ui two_boards (download_variants (Fetched example_catalog) new_flasher))
       (\<lambda>s. update_ui two_boards (pick_target ''/media/RP2'' s)))
       (\<lambda>s. update_ui two_boards
              (pick_variant (create_variant_description (example_variant ''Pi'' ''Pico'' ''rp2'')) s)))
       (\<lambda>s. update_ui two_boards (pick_target ''/media/SAMD'' s)))
       (\<lambda>s. Inr (pick_target ''/media/RP2'' s))"

definition revisit_after :: "error + BaseFlasher" where
  "revisit_after = and_then revisit_before (update_ui two_boards)"

section \<open>Properties of the string operations\<close>

lemma startswith_prefix: "startswith s p = prefix p s"
  by (induction s p rule: startswith.induct) auto

lemma lower_length: "length (lower s) = length s"
  by (simp add: lower_def)

section \<open>Metadata property lookup\<close>

lemma find_uf2_property_find:
  "find_uf2_property lines P =
     map_option (drop (length (P @ '': ''))) (find (prefix (P @ '': '')) lines)"
  by (induction lines) (simp_all add: startswith_prefix Let_def)

text \<open>
  Claim C10. \<open>find_uf2_property lines P\<close> is the text after the prefix \<open>P: \<close> of the
  first line that starts with this prefix, whatever follows that line, later lines
  declaring \<open>P\<close> again included. A line \<open>P:\<close> with no space after the colon is passed
  over, and so is a line whose property name differs from \<open>P\<close> in letter case only.
  When no line starts with the prefix the result is \<open>None\<close>.
\<close>

theorem find_uf2_property_first_line:
  "find_uf2_property lines P =
     map_option (drop (length (P @ '': ''))) (find (prefix (P @ '': '')) lines)
   \<and> ((\<forall>l \<in> set pre. \<not> prefix (P @ '': '') l) \<longrightarrow>
        find_uf2_property (pre @ (P @ '': '' @ rest) # post) P = Some rest)
   \<and> find_uf2_property ((P @ '':'') # lines) P = find_uf2_property lines P
   \<and> (lower Q = lower P \<and> Q \<noteq> P \<longrightarrow>
        find_uf2_property ((Q @ '': '' @ rest) # lines) P = find_uf2_property lines P)
   \<and> ((\<forall>l \<in> set lines. \<not> prefix (P @ '': '') l) \<longrightarrow> find_uf2_property lines P = None)"
proof (intro conjI impI)
  show "find_uf2_property lines P =
     map_option (drop (length (P @ '': ''))) (find (prefix (P @ '': '')) lines)"
    by (rule find_uf2_property_find)
next
  assume "\<forall>l \<in> set pre. \<not> prefix (P @ '': '') l"
  then show "find_uf2_property (pre @ (P @ '': '' @ rest) # post) P = Some rest"
    by (induction pre) (simp_all add: startswith_prefix Let_def)
next
  have "\<not> prefix (P @ '': '') (P @ '':'')"
    by (simp add: prefix_def)
  then show "find_uf2_property ((P @ '':'') # lines) P = find_uf2_property lines P"
    by (simp add: startswith_prefix Let_def)
next
  assume a: "lower Q = lower P \<and> Q \<noteq> P"
  then have "length Q = length P"
    using lower_length [of Q] lower_length [of P] by simp
  with a have "\<not> prefix (P @ '': '') (Q @ '': '' @ rest)"
    by (auto simp: prefix_def)
  then show "find_uf2_property ((Q @ '': '' @ rest) # lines) P = find_uf2_property lines P"
    by (simp add: startswith_prefix Let_def)
next
  assume "\<forall>l \<in> set lines. \<not> prefix (P @ '': '') l"
  then show "find_uf2_property lines P = None"
    by (induction lines) (simp_all add: startswith_prefix Let_def)
qed

theorem find_uf2_property_first_line_witness:
  "find_uf2_property [''Board-ID: abc-1'', ''Model: Foo Board'', ''Model: Bar''] ''Model''
     = Some ''Foo Board''
   \<and> find_uf2_property [''Model:'', ''Model: Bar''] ''Model'' = Some ''Bar''
   \<and> lower ''model'' = lower ''Model'' \<and> ''model'' \<noteq> ''Model''
   \<and> find_uf2_property [''model: Foo Board'', ''Model: Bar''] ''Model'' = Some ''Bar''
   \<and> find_uf2_property [''Board-ID: abc-1'', ''Model:''] ''Model'' = None"
proof -
  have pre: "\<forall>l \<in> set [''Board-ID: abc-1'']. \<not> prefix (''Model'' @ '': '') l"
    by simp
  have low: "lower ''model'' = lower ''Model'' \<and> ''model'' \<noteq> ''Model''"
    by code_simp
  have none: "\<forall>l \<in> set [''Board-ID: abc-1'', ''Model:'']. \<not> prefix (''Model'' @ '': '') l"
    by simp
  have bar: "find_uf2_property [''Model: Bar''] ''Model'' = Some ''Bar''"
    by code_simp
  note t1 = find_uf2_property_first_line
    [of "[''Model: Bar'']" "''Model''" "[''Board-ID: abc-1'']" "''Foo Board''" "[''Model: Bar'']"
        "''model''"]
  note t2 = find_uf2_property_first_line
    [of "[''Board-ID: abc-1'', ''Model:'']" "''Model''" "[]" "[]" "[]" "''Model''"]
  from t1 pre low bar t2 none show ?thesis by simp
qed

lemma str_contains_sublist: "str_contains needle hay = sublist needle hay"
  by (induction hay) (simp_all add: sublist_Cons_right startswith_prefix del: startswith.simps)

lemma str_replace_delete: "str_replace c [] s = filter (\<lambda>x. x \<noteq> c) s"
  by (induction s) simp_all


section \<open>Family inference\<close>

lemma scan_keywords_find:
  "scan_keywords ks content = find (\<lambda>k. sublist k content) ks"
  by (induction ks) (simp_all add: str_contains_sublist)

lemma normalize_content_filter: "normalize_content content = stripped_lowercase content"
  by (simp add: normalize_content_def stripped_lowercase_def str_replace_delete lower_def
        conj_commute conj_left_commute)

text \<open>
  Claim C6. When \<open>INFO_UF2.TXT\<close> reads as \<open>content\<close>, the target info is created and its
  family is decided on the normalized content (lowercased, with spaces, underscores and
  hyphens stripped): \<open>rp2\<close> when \<open>boardid:rpirp2\<close> occurs in it, whatever keywords occur
  besides; otherwise the first of \<open>samd21\<close>, \<open>samd51\<close>, \<open>nrf51\<close>, \<open>nrf52\<close>, \<open>esp32s3\<close>,
  \<open>esp32s3\<close>, in this order, that occurs in it as a substring; and absent when none does.
\<close>

theorem family_inference:
  "info_read e p = Inr content \<longrightarrow>
     (\<exists>t. fst (create_target_info e p) = Inr t
        \<and> family t =
            (if sublist ''boardid:rpirp2'' (stripped_lowercase content) then Some ''rp2''
             else find (\<lambda>keyword. sublist keyword (stripped_lowercase content))
                    [''samd21'', ''samd51'', ''nrf51'', ''nrf52'', ''esp32s3'', ''esp32s3'']))"
  by (simp add: create_target_info_def Let_def split_beta str_contains_sublist
        scan_keywords_find normalize_content_filter family_keywords_def
      del: find.simps)

theorem family_inference_witness:
  "info_read (example_env (''Board-ID: RPI-RP2'' @ [CHR 0x0A] @ ''nrf52 samd21'')) ''/media/RPI-RP2''
     = Inr (''Board-ID: RPI-RP2'' @ [CHR 0x0A] @ ''nrf52 samd21'')
   \<and> (\<exists>t. fst (create_target_info
                (example_env (''Board-ID: RPI-RP2'' @ [CHR 0x0A] @ ''nrf52 samd21''))
                ''/media/RPI-RP2'') = Inr t
          \<and> family t = Some ''rp2'')
   \<and> (\<exists>t. fst (create_target_info (example_env ''Model: NRF-52 or SAMD_51 board'')
                ''/media/RPI-RP2'') = Inr t
          \<and> family t = Some ''samd51'')
   \<and> (\<exists>t. fst (create_target_info (example_env ''Model: Foo Board'')
                ''/media/RPI-RP2'') = Inr t
          \<and> family t = None)"
proof -
  have r: "info_read (example_env c) ''/media/RPI-RP2'' = Inr c" for c
    by (simp add: example_env_def)
  have n1: "stripped_lowercase (''Board-ID: RPI-RP2'' @ [CHR 0x0A] @ ''nrf52 samd21'')
              = ''boardid:rpirp2'' @ [CHR 0x0A] @ ''nrf52samd21''"
    by code_simp
  have n2: "stripped_lowercase ''Model: NRF-52 or SAMD_51 board'' = ''model:nrf52orsamd51board''"
    by code_simp
  have n3: "stripped_lowercase ''Model: Foo Board'' = ''model:fooboard''"
    by code_simp
  have s1: "sublist ''boardid:rpirp2'' (''boardid:rpirp2'' @ [CHR 0x0A] @ ''nrf52samd21'')"
    by code_simp
  have s2: "(if sublist ''boardid:rpirp2'' ''model:nrf52orsamd51board'' then Some ''rp2''
             else find (\<lambda>keyword. sublist keyword ''model:nrf52orsamd51board'')
                    [''samd21'', ''samd51'', ''nrf51'', ''nrf52'', ''esp32s3'', ''esp32s3''])
            = Some ''samd51''"
    by code_simp
  have s3: "(if sublist ''boardid:rpirp2'' ''model:fooboard'' then Some ''rp2''
             else find (\<lambda>keyword. sublist keyword ''model:fooboard'')
                    [''samd21'', ''samd51'', ''nrf51'', ''nrf52'', ''esp32s3'', ''esp32s3''])
            = None"
    by code_simp
  note t1 = family_inference
    [of "example_env (''Board-ID: RPI-RP2'' @ [CHR 0x0A] @ ''nrf52 samd21'')"
        "''/media/RPI-RP2''" "''Board-ID: RPI-RP2'' @ [CHR 0x0A] @ ''nrf52 samd21''"]
  note t2 = family_inference [of "example_env ''Model: NRF-52 or SAMD_51 board''"
      "''/media/RPI-RP2''" "''Model: NRF-52 or SAMD_51 board''"]
  note t3 = family_inference [of "example_env ''Model: Foo Board''"
      "''/media/RPI-RP2''" "''Model: Foo Board''"]
  from t1 r n1 s1 have g1: "\<exists>t. fst (create_target_info
                (example_env (''Board-ID: RPI-RP2'' @ [CHR 0x0A] @ ''nrf52 samd21''))
                ''/media/RPI-RP2'') = Inr t \<and> family t = Some ''rp2''"
    by simp
  from t2 r have g2: "\<exists>t. fst (create_target_info (example_env ''Model: NRF-52 or SAMD_51 board'')
                ''/media/RPI-RP2'') = Inr t \<and> family t = Some ''samd51''"
    unfolding n2 s2 by simp
  from t3 r have g3: "\<exists>t. fst (create_target_info (example_env ''Model: Foo Board'')
                ''/media/RPI-RP2'') = Inr t \<and> family t = None"
    unfolding n3 s3 by simp
  from r g1 g2 g3 show ?thesis by simp
qed

section \<open>Splitting on white space\<close>








section \<open>Exact-match test\<close>





section \<open>Dictionaries built by comprehension\<close>

lemma dict_set_map_of: "map_of (dict_set d k v) = (map_of d)(k \<mapsto> v)"
  by (induction d k v rule: dict_set.induct) auto

lemma dict_set_keys:
  "map fst (dict_set d k v) = (if k \<in> fst ` set d then map fst d else map fst d @ [k])"
  by (induction d k v rule: dict_set.induct) auto

lemma dict_set_new: "k \<notin> fst ` set d \<Longrightarrow> dict_set d k v = d @ [(k, v)]"
  by (induction d k v rule: dict_set.induct) auto

lemma dict_set_distinct: "distinct (map fst d) \<Longrightarrow> distinct (map fst (dict_set d k v))"
  by (simp add: dict_set_keys)

lemma dict_comprehension_Nil: "dict_comprehension key val [] = []"
  by (simp add: dict_comprehension_def)

lemma dict_comprehension_snoc:
  "dict_comprehension key val (xs @ [x]) = dict_set (dict_comprehension key val xs) (key x) (val x)"
  by (simp add: dict_comprehension_def)

lemma dict_comprehension_distinct: "distinct (map fst (dict_comprehension key val xs))"
  by (induction xs rule: rev_induct)
     (simp_all add: dict_comprehension_Nil dict_comprehension_snoc dict_set_distinct)

lemma dict_comprehension_map_of:
  "map_of (dict_comprehension key val xs) = map_of (rev (map (\<lambda>x. (key x, val x)) xs))"
  by (induction xs rule: rev_induct)
     (simp_all add: dict_comprehension_Nil dict_comprehension_snoc dict_set_map_of)

lemma dict_comprehension_keys:
  "map fst (dict_comprehension key val xs) = rev (remdups (rev (map key xs)))"
proof (induction xs rule: rev_induct)
  case Nil
  show ?case by (simp add: dict_comprehension_Nil)
next
  case (snoc x xs)
  have "fst ` set (dict_comprehension key val xs) = key ` set xs"
    using snoc.IH [THEN arg_cong, of set] by (simp del: set_map add: set_map [symmetric])
  with snoc.IH show ?case
    by (simp add: dict_comprehension_snoc dict_set_keys)
qed

lemma dict_comprehension_key_set:
  "fst ` set (dict_comprehension key val xs) = key ` set xs"
  using dict_comprehension_keys [of key val xs, THEN arg_cong, of set]
  by (simp del: set_map add: set_map [symmetric])

lemma dict_comprehension_distinct_keys:
  "distinct (map key xs) \<Longrightarrow> dict_comprehension key val xs = map (\<lambda>x. (key x, val x)) xs"
proof (induction xs rule: rev_induct)
  case Nil
  show ?case by (simp add: dict_comprehension_Nil)
next
  case (snoc x xs)
  then have "key x \<notin> fst ` set (dict_comprehension key val xs)"
    unfolding dict_comprehension_key_set by simp
  with snoc show ?case
    by (simp add: dict_comprehension_snoc dict_set_new)
qed

lemma dict_comprehension_items:
  "distinct (map fst d) \<Longrightarrow> dict_comprehension fst snd d = d"
  by (simp add: dict_comprehension_distinct_keys)

lemma dict_comprehension_entry:
  "(k, v) \<in> set (dict_comprehension key val xs)
     \<longleftrightarrow> map_of (rev (map (\<lambda>x. (key x, val x)) xs)) k = Some v"
  using dict_comprehension_distinct [of key val xs] dict_comprehension_map_of [of key val xs]
  by (metis map_of_eq_Some_iff)

lemma dict_comprehension_entry_from:
  "(k, v) \<in> set (dict_comprehension key val xs) \<Longrightarrow> \<exists>x \<in> set xs. k = key x \<and> v = val x"
  by (auto simp: dict_comprehension_entry dest!: map_of_SomeD)

lemma dict_comprehension_last:
  assumes "\<forall>z \<in> set zs. key z \<noteq> key b"
  shows "map_of (dict_comprehension key val (ys @ b # zs)) (key b) = Some (val b)"
proof -
  have "map_of (rev (map (\<lambda>x. (key x, val x)) zs)) (key b) = None"
    using assms by (auto simp: map_of_eq_None_iff image_iff)
  then show ?thesis
    by (simp add: dict_comprehension_map_of map_add_def)
qed

section \<open>The variant mappings\<close>

lemma distinct_count_one:
  "k \<in> set ks \<Longrightarrow> distinct ks \<Longrightarrow> length (filter (\<lambda>x. x = k) ks) = 1"
  by (induction ks) (auto simp: filter_empty_conv)

lemma whole_mapping_distinct: "distinct (map fst (whole_mapping c))"
  by (simp add: whole_mapping_def dict_comprehension_distinct)

lemma whole_mapping_entry:
  "(k, v) \<in> set (whole_mapping c) \<Longrightarrow> k = create_variant_description v \<and> v \<in> set c"
  unfolding whole_mapping_def by (auto dest: dict_comprehension_entry_from)

lemma whole_mapping_item:
  "item \<in> set (whole_mapping c) \<Longrightarrow>
     fst item = create_variant_description (snd item) \<and> snd item \<in> set c"
  using whole_mapping_entry [of "fst item" "snd item" c] by simp

lemma whole_mapping_nonempty: "c \<noteq> [] \<Longrightarrow> whole_mapping c \<noteq> []"
  using dict_comprehension_key_set [of create_variant_description "\<lambda>v. v" c]
  by (auto simp: whole_mapping_def)

lemma whole_mapping_distinct_descriptions:
  "distinct (map create_variant_description c) \<Longrightarrow>
     whole_mapping c = map (\<lambda>v. (create_variant_description v, v)) c"
  by (simp add: whole_mapping_def dict_comprehension_distinct_keys)

lemma filtered_mapping_filter:
  "filtered_mapping t c =
     (case family t of
        None \<Rightarrow> whole_mapping c
      | Some f \<Rightarrow>
          if filter (\<lambda>item. prefix f (v_family (snd item))) (whole_mapping c) = []
          then whole_mapping c
          else filter (\<lambda>item. prefix f (v_family (snd item))) (whole_mapping c))"
proof -
  have "dict_comprehension fst snd (filter P (whole_mapping c)) = filter P (whole_mapping c)" for P
    by (rule dict_comprehension_items) (simp add: distinct_map_filter whole_mapping_distinct)
  then show ?thesis
    by (simp add: filtered_mapping_def Let_def startswith_prefix split: option.splits)
qed

lemma filtered_mapping_subset: "set (filtered_mapping t c) \<subseteq> set (whole_mapping c)"
  by (auto simp: filtered_mapping_filter split: option.splits if_splits)

lemma filtered_mapping_distinct: "distinct (map fst (filtered_mapping t c))"
  by (simp add: filtered_mapping_filter whole_mapping_distinct distinct_map_filter
      split: option.splits)

lemma filtered_mapping_values_distinct: "distinct (dict_values (filtered_mapping t c))"
proof -
  have "inj_on snd (set (filtered_mapping t c))"
  proof (rule inj_onI)
    fix x y
    assume "x \<in> set (filtered_mapping t c)" "y \<in> set (filtered_mapping t c)" "snd x = snd y"
    then have "x \<in> set (whole_mapping c)" "y \<in> set (whole_mapping c)" "snd x = snd y"
      using filtered_mapping_subset [of t c] by auto
    then have "fst x = fst y"
      using whole_mapping_item [of x c] whole_mapping_item [of y c] by simp
    with \<open>snd x = snd y\<close> show "x = y"
      by (simp add: prod_eq_iff)
  qed
  moreover have "distinct (filtered_mapping t c)"
    using filtered_mapping_distinct [of t c] by (simp add: distinct_map)
  ultimately show ?thesis
    by (simp add: dict_values_def distinct_map)
qed

text \<open>
  Claim C9. Every entry of the variant mapping shown for a target is keyed by the
  description of its variant: the vendor, the bullet between two spaces, and the title
  when present, otherwise the model. When two variants \<open>a\<close> and \<open>b\<close> of the catalogue,
  \<open>a\<close> before \<open>b\<close>, have equal vendors and equal titles-or-models, and no variant after
  \<open>b\<close> has this description, the mapping built from the catalogue has exactly one
  entry under the description, bound to the later variant \<open>b\<close>; the earlier variant
  \<open>a\<close>, when it differs from \<open>b\<close>, is a value neither of this mapping nor of the mapping
  filtered for a target.
\<close>

theorem variant_description_collision:
  "(\<forall>item \<in> set (filtered_mapping target c).
      fst item = v_vendor (snd item) @ '' '' @ bullet @ '' '' @ title_or_model (snd item))
   \<and> (c = xs @ a # ys @ b # zs \<and> v_vendor a = v_vendor b
        \<and> title_or_model a = title_or_model b
        \<and> (\<forall>z \<in> set zs. create_variant_description z \<noteq> create_variant_description b) \<longrightarrow>
      create_variant_description a = create_variant_description b
      \<and> length (filter (\<lambda>item. fst item = create_variant_description b) (whole_mapping c)) = 1
      \<and> dict_get (whole_mapping c) (create_variant_description b) = Some b
      \<and> (a \<noteq> b \<longrightarrow> a \<notin> set (dict_values (whole_mapping c))
                    \<and> a \<notin> set (dict_values (filtered_mapping target c))))"
proof (intro conjI ballI impI)
  fix item assume "item \<in> set (filtered_mapping target c)"
  then have "item \<in> set (whole_mapping c)"
    using filtered_mapping_subset [of target c] by auto
  then show "fst item = v_vendor (snd item) @ '' '' @ bullet @ '' '' @ title_or_model (snd item)"
    using whole_mapping_item [of item c]
    by (simp add: create_variant_description_def title_or_model_def)
next
  assume a: "c = xs @ a # ys @ b # zs \<and> v_vendor a = v_vendor b
        \<and> title_or_model a = title_or_model b
        \<and> (\<forall>z \<in> set zs. create_variant_description z \<noteq> create_variant_description b)"
  let ?d = "create_variant_description b"
  from a show da: "create_variant_description a = ?d"
    by (simp add: create_variant_description_def title_or_model_def)
  have c: "c = (xs @ a # ys) @ b # zs"
    using a by simp
  have look: "map_of (whole_mapping c) ?d = Some b"
    unfolding whole_mapping_def c
    by (rule dict_comprehension_last) (use a in simp)
  then show "dict_get (whole_mapping c) ?d = Some b"
    by (simp add: dict_get_def)
  have "?d \<in> set (map fst (whole_mapping c))"
    using look by (metis map_of_eq_None_iff option.distinct(1) set_map)
  then have "length (filter (\<lambda>k. k = ?d) (map fst (whole_mapping c))) = 1"
    using whole_mapping_distinct [of c] by (rule distinct_count_one)
  then show "length (filter (\<lambda>item. fst item = ?d) (whole_mapping c)) = 1"
    by (simp add: filter_map comp_def)
  have notin: "a \<notin> set (dict_values (whole_mapping c))" if "a \<noteq> b"
  proof
    assume "a \<in> set (dict_values (whole_mapping c))"
    then obtain k where k: "(k, a) \<in> set (whole_mapping c)"
      by (auto simp: dict_values_def)
    then have "k = ?d"
      using whole_mapping_entry [OF k] da by simp
    with k have "map_of (whole_mapping c) ?d = Some a"
      using whole_mapping_distinct [of c] by simp
    with look that show False by simp
  qed
  assume "a \<noteq> b"
  then show "a \<notin> set (dict_values (whole_mapping c))" by (rule notin)
  from \<open>a \<noteq> b\<close> notin filtered_mapping_subset [of target c]
  show "a \<notin> set (dict_values (filtered_mapping target c))"
    by (auto simp: dict_values_def)
qed

theorem variant_description_collision_witness:
  "v_vendor (example_variant ''A'' ''M'' ''rp2'') = v_vendor (example_variant ''A'' ''M'' ''esp32'')
   \<and> title_or_model (example_variant ''A'' ''M'' ''rp2'')
       = title_or_model (example_variant ''A'' ''M'' ''esp32'')
   \<and> example_variant ''A'' ''M'' ''rp2'' \<noteq> example_variant ''A'' ''M'' ''esp32''
   \<and> length (filter (\<lambda>item. fst item = create_variant_description (example_variant ''A'' ''M'' ''esp32''))
         (whole_mapping [example_variant ''A'' ''M'' ''rp2'', example_variant ''A'' ''M'' ''esp32''])) = 1
   \<and> dict_get (whole_mapping [example_variant ''A'' ''M'' ''rp2'', example_variant ''A'' ''M'' ''esp32''])
         (create_variant_description (example_variant ''A'' ''M'' ''esp32''))
       = Some (example_variant ''A'' ''M'' ''esp32'')
   \<and> example_variant ''A'' ''M'' ''rp2''
       \<notin> set (dict_values (filtered_mapping (example_target (Some ''rp2'') None)
             [example_variant ''A'' ''M'' ''rp2'', example_variant ''A'' ''M'' ''esp32'']))"
proof -
  let ?a = "example_variant ''A'' ''M'' ''rp2''"
  let ?b = "example_variant ''A'' ''M'' ''esp32''"
  have h1: "[?a, ?b] = [] @ ?a # [] @ ?b # []" by simp
  have h2: "v_vendor ?a = v_vendor ?b" by (simp add: example_variant_def)
  have h3: "title_or_model ?a = title_or_model ?b"
    by (simp add: example_variant_def title_or_model_def)
  have h4: "\<forall>z \<in> set []. create_variant_description z \<noteq> create_variant_description ?b"
    by simp
  have h5: "?a \<noteq> ?b" by (simp add: example_variant_def)
  note t = variant_description_collision
    [of "example_target (Some ''rp2'') None" "[?a, ?b]" "[]" ?a "[]" ?b "[]"]
  from t h1 h2 h3 h4 h5 show ?thesis by blast
qed

section \<open>Filtering the variants for a target\<close>

text \<open>
  Claim C2, as stated, fails: the filtered set is taken from the mapping keyed by
  description, not from the catalogue. In a catalogue of two variants with one
  description and the families \<open>rp2\<close> and \<open>esp32\<close>, a target without family is shown
  the second variant only, not the whole catalogue; and a target of family \<open>rp2\<close> is
  shown the second variant, of family \<open>esp32\<close>, not the first.
\<close>

theorem filtered_set_whole_catalog_counterexample:
  "[example_variant ''A'' ''M'' ''rp2'', example_variant ''A'' ''M'' ''esp32''] \<noteq> []
   \<and> family (example_target None None) = None
   \<and> set (dict_values (filtered_mapping (example_target None None)
         [example_variant ''A'' ''M'' ''rp2'', example_variant ''A'' ''M'' ''esp32'']))
       \<noteq> set [example_variant ''A'' ''M'' ''rp2'', example_variant ''A'' ''M'' ''esp32'']
   \<and> dict_values (filtered_mapping (example_target (Some ''rp2'') None)
         [example_variant ''A'' ''M'' ''rp2'', example_variant ''A'' ''M'' ''esp32''])
       = [example_variant ''A'' ''M'' ''esp32'']
   \<and> filter (\<lambda>v. startswith (v_family v) ''rp2'')
         [example_variant ''A'' ''M'' ''rp2'', example_variant ''A'' ''M'' ''esp32'']
       = [example_variant ''A'' ''M'' ''rp2'']"
  by code_simp

text \<open>
  Claim C2, amended. For a catalogue that is not empty, the filtered mapping is never
  empty. For a target without family it is the whole mapping of the catalogue, keyed by
  description; for a target with a family it holds exactly the entries of the whole
  mapping whose variant's family starts with the family of the target, unless there is
  none, and then it is the whole mapping. When the descriptions of the catalogue are
  pairwise distinct, the values of the whole mapping are the catalogue, and the values
  of the filtered mapping are the catalogue, filtered by the family prefix with the
  same fallback.
\<close>

theorem filtered_mapping_spec:
  "c \<noteq> [] \<longrightarrow>
     filtered_mapping t c \<noteq> []
     \<and> (family t = None \<longrightarrow> filtered_mapping t c = whole_mapping c)
     \<and> (\<forall>f. family t = Some f \<longrightarrow>
          filtered_mapping t c =
            (if filter (\<lambda>item. prefix f (v_family (snd item))) (whole_mapping c) = []
             then whole_mapping c
             else filter (\<lambda>item. prefix f (v_family (snd item))) (whole_mapping c)))
     \<and> (distinct (map create_variant_description c) \<longrightarrow>
          dict_values (whole_mapping c) = c
          \<and> (family t = None \<longrightarrow> dict_values (filtered_mapping t c) = c)
          \<and> (\<forall>f. family t = Some f \<longrightarrow>
               dict_values (filtered_mapping t c) =
                 (if filter (\<lambda>v. prefix f (v_family v)) c = [] then c
                  else filter (\<lambda>v. prefix f (v_family v)) c)))"
proof (intro impI conjI allI)
  assume c: "c \<noteq> []"
  show "filtered_mapping t c \<noteq> []"
    using whole_mapping_nonempty [OF c]
    by (simp add: filtered_mapping_filter split: option.splits)
next
  assume "family t = None"
  then show "filtered_mapping t c = whole_mapping c"
    by (simp add: filtered_mapping_filter)
next
  fix f assume "family t = Some f"
  then show "filtered_mapping t c =
            (if filter (\<lambda>item. prefix f (v_family (snd item))) (whole_mapping c) = []
             then whole_mapping c
             else filter (\<lambda>item. prefix f (v_family (snd item))) (whole_mapping c))"
    by (simp add: filtered_mapping_filter)
next
  assume d: "distinct (map create_variant_description c)"
  show "dict_values (whole_mapping c) = c"
    by (simp add: whole_mapping_distinct_descriptions [OF d] dict_values_def comp_def)
next
  assume d: "distinct (map create_variant_description c)" and "family t = None"
  then show "dict_values (filtered_mapping t c) = c"
    by (simp add: filtered_mapping_filter whole_mapping_distinct_descriptions [OF d]
          dict_values_def comp_def)
next
  fix f
  assume d: "distinct (map create_variant_description c)" and f: "family t = Some f"
  have "filter (\<lambda>item. prefix f (v_family (snd item))) (whole_mapping c)
          = map (\<lambda>v. (create_variant_description v, v)) (filter (\<lambda>v. prefix f (v_family v)) c)"
    by (simp add: whole_mapping_distinct_descriptions [OF d] filter_map comp_def)
  then show "dict_values (filtered_mapping t c) =
                 (if filter (\<lambda>v. prefix f (v_family v)) c = [] then c
                  else filter (\<lambda>v. prefix f (v_family v)) c)"
    using f
    by (simp add: filtered_mapping_filter whole_mapping_distinct_descriptions [OF d]
          dict_values_def comp_def)
qed

theorem filtered_mapping_spec_witness:
  "[example_variant ''Pi'' ''Pico'' ''rp2'', example_variant ''Ada'' ''Feather'' ''samd21'',
    example_variant ''Pi'' ''Pico W'' ''rp2040''] \<noteq> []
   \<and> distinct (map create_variant_description
        [example_variant ''Pi'' ''Pico'' ''rp2'', example_variant ''Ada'' ''Feather'' ''samd21'',
         example_variant ''Pi'' ''Pico W'' ''rp2040''])
   \<and> dict_values (filtered_mapping (example_target (Some ''rp2'') None)
        [example_variant ''Pi'' ''Pico'' ''rp2'', example_variant ''Ada'' ''Feather'' ''samd21'',
         example_variant ''Pi'' ''Pico W'' ''rp2040''])
       = [example_variant ''Pi'' ''Pico'' ''rp2'', example_variant ''Pi'' ''Pico W'' ''rp2040'']
   \<and> dict_values (filtered_mapping (example_target (Some ''zzz'') None)
        [example_variant ''Pi'' ''Pico'' ''rp2'', example_variant ''Ada'' ''Feather'' ''samd21'',
         example_variant ''Pi'' ''Pico W'' ''rp2040''])
       = [example_variant ''Pi'' ''Pico'' ''rp2'', example_variant ''Ada'' ''Feather'' ''samd21'',
          example_variant ''Pi'' ''Pico W'' ''rp2040'']
   \<and> dict_values (filtered_mapping (example_target None None)
        [example_variant ''Pi'' ''Pico'' ''rp2'', example_variant ''Ada'' ''Feather'' ''samd21'',
         example_variant ''Pi'' ''Pico W'' ''rp2040''])
       = [example_variant ''Pi'' ''Pico'' ''rp2'', example_variant ''Ada'' ''Feather'' ''samd21'',
          example_variant ''Pi'' ''Pico W'' ''rp2040'']"
proof -
  let ?c = "[example_variant ''Pi'' ''Pico'' ''rp2'', example_variant ''Ada'' ''Feather'' ''samd21'',
             example_variant ''Pi'' ''Pico W'' ''rp2040'']"
  have ne: "?c \<noteq> []" by simp
  have d: "distinct (map create_variant_description ?c)"
    by (simp add: create_variant_description_def example_variant_def)
  have f: "family (example_target a b) = a" for a b
    by (simp add: example_target_def)
  have p1: "filter (\<lambda>v. prefix ''rp2'' (v_family v)) ?c
      = [example_variant ''Pi'' ''Pico'' ''rp2'', example_variant ''Pi'' ''Pico W'' ''rp2040'']"
    by (simp add: example_variant_def)
  have p2: "filter (\<lambda>v. prefix ''zzz'' (v_family v)) ?c = []"
    by (simp add: example_variant_def)
  note t1 = filtered_mapping_spec [of ?c "example_target (Some ''rp2'') None", THEN mp, OF ne,
      THEN conjunct2, THEN conjunct2, THEN conjunct2, THEN mp, OF d]
  note t2 = filtered_mapping_spec [of ?c "example_target (Some ''zzz'') None", THEN mp, OF ne,
      THEN conjunct2, THEN conjunct2, THEN conjunct2, THEN mp, OF d]
  note t3 = filtered_mapping_spec [of ?c "example_target None None", THEN mp, OF ne,
      THEN conjunct2, THEN conjunct2, THEN conjunct2, THEN mp, OF d]
  have g1: "dict_values (filtered_mapping (example_target (Some ''rp2'') None) ?c)
      = [example_variant ''Pi'' ''Pico'' ''rp2'', example_variant ''Pi'' ''Pico W'' ''rp2040'']"
    using t1 [THEN conjunct2, THEN conjunct2, THEN spec, of "''rp2''", THEN mp, OF f]
    by (simp only: p1 list.distinct if_False)
  have g2: "dict_values (filtered_mapping (example_target (Some ''zzz'') None) ?c) = ?c"
    using t2 [THEN conjunct2, THEN conjunct2, THEN spec, of "''zzz''", THEN mp, OF f]
    by (simp only: p2 if_True simp_thms)
  have g3: "dict_values (filtered_mapping (example_target None None) ?c) = ?c"
    using t3 [THEN conjunct2, THEN conjunct1, THEN mp, OF f] .
  from ne d g1 g2 g3 show ?thesis by simp
qed

section \<open>The versions of a variant\<close>

lemma description_of_head: "description_of ((k, x) # d) x = Some k"
  by simp

lemma handle_new_variant_combo:
  "version_combo (handle_new_variant v s) =
     \<lparr>mapping = versions_mapping v,
      description = (case versions_mapping v of [] \<Rightarrow> [] | item # _ \<Rightarrow> fst item)\<rparr>"
proof (cases "versions_mapping v")
  case Nil
  then show ?thesis
    by (simp add: handle_new_variant_def Let_def dict_values_def set_mapping_def select_none_def)
next
  case (Cons item rest)
  then show ?thesis
    by (cases item)
       (simp add: handle_new_variant_def Let_def dict_values_def set_mapping_def
          select_value_def)
qed

lemma handle_new_variant_selected:
  "get_selected_value (version_combo (handle_new_variant v s)) =
     (case versions_mapping v of [] \<Rightarrow> None | item # _ \<Rightarrow> Some (snd item))"
proof (cases "versions_mapping v")
  case Nil
  then show ?thesis
    by (simp add: handle_new_variant_combo get_selected_value_def dict_get_def)
next
  case (Cons item rest)
  then show ?thesis
    by (cases item) (simp add: handle_new_variant_combo get_selected_value_def dict_get_def)
qed

text \<open>
  Claim C8. Handling a newly selected variant shows the mapping from version to URL
  built from the downloads of the variant: its keys are the versions in the order of
  their first occurrence in the downloads, and for pairwise distinct versions it is the
  list of downloads itself, pair by pair. The URL of the first entry of the mapping is
  selected when there is one; with no downloads nothing is selected. For the downloads
  \<open>1.0\<close> at \<open>a\<close> and \<open>1.1\<close> at \<open>b\<close> the selected value is \<open>a\<close>.
\<close>

theorem handle_new_variant_versions:
  "mapping (version_combo (handle_new_variant v s)) = versions_mapping v
   \<and> map fst (versions_mapping v) = rev (remdups (rev (map d_version (v_downloads v))))
   \<and> (distinct (map d_version (v_downloads v)) \<longrightarrow>
        versions_mapping v = map (\<lambda>d. (d_version d, d_url d)) (v_downloads v))
   \<and> get_selected_value (version_combo (handle_new_variant v s)) =
        (case versions_mapping v of [] \<Rightarrow> None | item # _ \<Rightarrow> Some (snd item))
   \<and> (v_downloads v = [] \<longrightarrow>
        versions_mapping v = []
        \<and> get_selected_value (version_combo (handle_new_variant v s)) = None)
   \<and> (v_downloads v = [\<lparr>d_version = ''1.0'', d_url = ''a''\<rparr>, \<lparr>d_version = ''1.1'', d_url = ''b''\<rparr>] \<longrightarrow>
        versions_mapping v = [(''1.0'', ''a''), (''1.1'', ''b'')]
        \<and> get_selected_value (version_combo (handle_new_variant v s)) = Some ''a'')"
proof (intro conjI impI)
  show "mapping (version_combo (handle_new_variant v s)) = versions_mapping v"
    by (simp add: handle_new_variant_combo)
  show "map fst (versions_mapping v) = rev (remdups (rev (map d_version (v_downloads v))))"
    by (simp add: versions_mapping_def dict_comprehension_keys)
  show sel: "get_selected_value (version_combo (handle_new_variant v s)) =
        (case versions_mapping v of [] \<Rightarrow> None | item # _ \<Rightarrow> Some (snd item))"
    by (rule handle_new_variant_selected)
  {
    assume "distinct (map d_version (v_downloads v))"
    then show "versions_mapping v = map (\<lambda>d. (d_version d, d_url d)) (v_downloads v)"
      by (simp add: versions_mapping_def dict_comprehension_distinct_keys)
  }
  {
    assume e: "v_downloads v = []"
    then show m: "versions_mapping v = []"
      by (simp add: versions_mapping_def dict_comprehension_Nil)
    show "get_selected_value (version_combo (handle_new_variant v s)) = None"
      by (simp add: sel m)
  }
  {
    assume e: "v_downloads v = [\<lparr>d_version = ''1.0'', d_url = ''a''\<rparr>, \<lparr>d_version = ''1.1'', d_url = ''b''\<rparr>]"
    then show m: "versions_mapping v = [(''1.0'', ''a''), (''1.1'', ''b'')]"
      by (simp add: versions_mapping_def dict_comprehension_def)
    show "get_selected_value (version_combo (handle_new_variant v s)) = Some ''a''"
      by (simp add: sel m)
  }
qed

theorem handle_new_variant_versions_witness:
  "v_downloads (example_variant ''Pi'' ''Pico'' ''rp2'') = []
   \<and> get_selected_value (version_combo
        (handle_new_variant (example_variant ''Pi'' ''Pico'' ''rp2'') new_flasher)) = None
   \<and> distinct (map d_version
        [\<lparr>d_version = ''1.0'', d_url = ''a''\<rparr>, \<lparr>d_version = ''1.1'', d_url = ''b''\<rparr>])
   \<and> mapping (version_combo (handle_new_variant
        ((example_variant ''Pi'' ''Pico'' ''rp2'')
           \<lparr>v_downloads := [\<lparr>d_version = ''1.0'', d_url = ''a''\<rparr>, \<lparr>d_version = ''1.1'', d_url = ''b''\<rparr>]\<rparr>)
        new_flasher)) = [(''1.0'', ''a''), (''1.1'', ''b'')]
   \<and> get_selected_value (version_combo (handle_new_variant
        ((example_variant ''Pi'' ''Pico'' ''rp2'')
           \<lparr>v_downloads := [\<lparr>d_version = ''1.0'', d_url = ''a''\<rparr>, \<lparr>d_version = ''1.1'', d_url = ''b''\<rparr>]\<rparr>)
        new_flasher)) = Some ''a''"
proof -
  let ?v = "example_variant ''Pi'' ''Pico'' ''rp2''"
  let ?ds = "[\<lparr>d_version = ''1.0'', d_url = ''a''\<rparr>, \<lparr>d_version = ''1.1'', d_url = ''b''\<rparr>]"
  have e: "v_downloads ?v = []" by (simp add: example_variant_def)
  have w: "v_downloads (?v\<lparr>v_downloads := ?ds\<rparr>) = ?ds" by simp
  have d: "distinct (map d_version ?ds)" by simp
  note t1 = handle_new_variant_versions [of ?v new_flasher]
  note t2 = handle_new_variant_versions [of "?v\<lparr>v_downloads := ?ds\<rparr>" new_flasher]
  from t1 e have g1: "get_selected_value (version_combo (handle_new_variant ?v new_flasher)) = None"
    by blast
  from t2 w have g2: "versions_mapping (?v\<lparr>v_downloads := ?ds\<rparr>) = [(''1.0'', ''a''), (''1.1'', ''b'')]
      \<and> get_selected_value (version_combo (handle_new_variant (?v\<lparr>v_downloads := ?ds\<rparr>) new_flasher))
          = Some ''a''"
    by blast
  from t2 have g3: "mapping (version_combo (handle_new_variant (?v\<lparr>v_downloads := ?ds\<rparr>) new_flasher))
      = versions_mapping (?v\<lparr>v_downloads := ?ds\<rparr>)"
    by blast
  from e d g1 g2 g3 show ?thesis by simp
qed

section \<open>Auto-selection of the variant\<close>

lemma distinct_singleton: "distinct ys \<Longrightarrow> set ys = {m} \<Longrightarrow> ys = [m]"
proof (cases ys)
  case Nil
  assume "set ys = {m}"
  with Nil show ?thesis by simp
next
  case (Cons y zs)
  assume d: "distinct ys" and s: "set ys = {m}"
  from s Cons have y: "y = m" by auto
  from d s Cons y have "set zs \<subseteq> {m}" "m \<notin> set zs" by auto
  then have "zs = []" by (cases zs) auto
  with y Cons show ?thesis by simp
qed

lemma filter_single_iff:
  assumes "distinct xs"
  shows "filter P xs = [m] \<longleftrightarrow> m \<in> set xs \<and> P m \<and> (\<forall>v \<in> set xs. P v \<longrightarrow> v = m)"
proof
  assume f: "filter P xs = [m]"
  then have "set (filter P xs) = {m}" by simp
  then show "m \<in> set xs \<and> P m \<and> (\<forall>v \<in> set xs. P v \<longrightarrow> v = m)"
    by auto
next
  assume a: "m \<in> set xs \<and> P m \<and> (\<forall>v \<in> set xs. P v \<longrightarrow> v = m)"
  then have "set (filter P xs) = {m}" by auto
  moreover have "distinct (filter P xs)" using assms by simp
  ultimately show "filter P xs = [m]" by (rule distinct_singleton [rotated])
qed

lemma description_of_entry:
  "v \<in> set (dict_values m) \<Longrightarrow> \<exists>k. description_of m v = Some k \<and> (k, v) \<in> set m"
  by (induction m v rule: description_of.induct) (auto simp: dict_values_def)

lemma select_value_selects:
  assumes "distinct (map fst (mapping c))" and "v \<in> set (dict_values (mapping c))"
  shows "get_selected_value (select_value v c) = Some v"
    and "mapping (select_value v c) = mapping c"
proof -
  obtain k where k: "description_of (mapping c) v = Some k" "(k, v) \<in> set (mapping c)"
    using description_of_entry [OF assms(2)] by blast
  then have "map_of (mapping c) k = Some v"
    using assms(1) by simp
  with k show "get_selected_value (select_value v c) = Some v"
    by (simp add: select_value_def get_selected_value_def dict_get_def)
  show "mapping (select_value v c) = mapping c"
    by (simp add: select_value_def split: option.splits)
qed

lemma handle_new_target_result:
  assumes "downloaded_variants s \<noteq> []"
  shows "\<exists>c. handle_new_target target s = Inr (s\<lparr>variant_combo := c\<rparr>)
           \<and> mapping c = filtered_mapping target (downloaded_variants s)
           \<and> get_selected_value c
               = selection_after (filtered_mapping target (downloaded_variants s)) target
                   (variant_combo s)"
proof -
  let ?filtered = "filtered_mapping target (downloaded_variants s)"
  let ?combo = "set_mapping ?filtered (variant_combo s)"
  let ?matches = "filter (\<lambda>v. variant_is_meant_for_target v target) (dict_values ?filtered)"
  have d: "distinct (map fst (mapping ?combo))" and m: "mapping ?combo = ?filtered"
    by (simp_all add: set_mapping_def filtered_mapping_distinct)
  have kept: "get_selected_value ?combo = dict_get ?filtered (description (variant_combo s))"
    by (simp add: set_mapping_def get_selected_value_def)
  show ?thesis
  proof (cases "\<exists>x. ?matches = [x]")
    case True
    then obtain x where x: "?matches = [x]" by blast
    then have "x \<in> set ?matches" by simp
    then have "x \<in> set (dict_values (mapping ?combo))" using m by simp
    note sel = select_value_selects [OF d this]
    have "handle_new_target target s = Inr (s\<lparr>variant_combo := select_value x ?combo\<rparr>)"
      using assms x by (simp add: handle_new_target_def Let_def)
    moreover have "selection_after ?filtered target (variant_combo s) = Some x"
      using x by (simp add: selection_after_def)
    ultimately show ?thesis
      using sel m by (intro exI [of _ "select_value x ?combo"]) simp
  next
    case False
    then have no: "\<And>x. ?matches \<noteq> [x]" by blast
    show ?thesis
    proof (cases "\<exists>p. get_selected_value (variant_combo s) = Some p \<and> p \<in> set (dict_values ?filtered)")
      case True
      then obtain p where p: "get_selected_value (variant_combo s) = Some p"
          "p \<in> set (dict_values ?filtered)"
        by blast
      then have "p \<in> set (dict_values (mapping ?combo))" using m by simp
      note sel = select_value_selects [OF d this]
      have "handle_new_target target s = Inr (s\<lparr>variant_combo := select_value p ?combo\<rparr>)"
        using assms no p by (simp add: handle_new_target_def Let_def split: list.splits)
      moreover have "selection_after ?filtered target (variant_combo s) = Some p"
        using no p by (simp add: selection_after_def split: list.splits)
      ultimately show ?thesis
        using sel m by (intro exI [of _ "select_value p ?combo"]) simp
    next
      case False
      then have "handle_new_target target s = Inr (s\<lparr>variant_combo := ?combo\<rparr>)"
        using assms no
        by (auto simp: handle_new_target_def Let_def split: list.splits option.splits)
      moreover have "selection_after ?filtered target (variant_combo s)
          = dict_get ?filtered (description (variant_combo s))"
        using no False by (auto simp: selection_after_def split: list.splits option.splits)
      ultimately show ?thesis
        using kept m by (intro exI [of _ ?combo]) simp
    qed
  qed
qed

text \<open>
  Claim C4 holds in its first two cases and fails in the last: \<open>_handle_new_target\<close>
  has no branch for it and leaves the picker displaying the description it displayed
  before, which the new filtered mapping may bind again. In the run of
  \<open>revisit_before\<close>, when the \<open>rp2\<close> board is picked again no variant is selected and no
  variant of the filtered mapping passes the exact-match test, yet handling the target
  selects the variant \<open>Pico\<close> that the user had picked two targets earlier.
\<close>

theorem handle_new_target_stale_description:
  "map_sum (\<lambda>err. err) (\<lambda>s. get_selected_value (target_combo s)) revisit_before
     = Inr (Some rp2_board)
   \<and> map_sum (\<lambda>err. err) (\<lambda>s. get_selected_value (variant_combo s)) revisit_before = Inr None
   \<and> map_sum (\<lambda>err. err) downloaded_variants revisit_before = Inr example_catalog
   \<and> filter (\<lambda>v. variant_is_meant_for_target v rp2_board)
         (dict_values (filtered_mapping rp2_board example_catalog)) = []
   \<and> and_then revisit_before
         (\<lambda>s. map_sum (\<lambda>err. err) (\<lambda>s'. get_selected_value (variant_combo s'))
                (handle_new_target rp2_board s))
       = Inr (Some (example_variant ''Pi'' ''Pico'' ''rp2''))
   \<and> map_sum (\<lambda>err. err) (\<lambda>s. get_selected_value (variant_combo s)) revisit_after
       = Inr (Some (example_variant ''Pi'' ''Pico'' ''rp2''))"
  by code_simp

section \<open>Scanning the volumes\<close>

lemma create_target_info_error:
  "isl (fst (create_target_info e p)) = isl (info_read e p)"
  by (simp add: create_target_info_def Let_def split_beta split: sum.splits)

lemma create_target_info_fields:
  "fst (create_target_info e p) = Inr t \<Longrightarrow>
     path t = p \<and> title t = fst (describe_target_path e p) \<and> \<not> isl (info_read e p)"
  by (auto simp: create_target_info_def Let_def split_beta split: sum.splits)

lemma describe_target_path_log:
  "LogException msg \<notin> set (snd (describe_target_path e p))"
  by (simp add: describe_target_path_def split: sum.splits)

lemma create_target_info_log:
  "LogException msg \<notin> set (snd (create_target_info e p))"
  using describe_target_path_log [of msg e p]
  by (simp add: create_target_info_def Let_def split_beta split: sum.splits)

lemma created_targets_Cons:
  "created_targets e (p # ps) =
     (case fst (create_target_info e p) of
        Inr t \<Rightarrow> t # created_targets e ps
      | Inl err \<Rightarrow> created_targets e ps)"
  by (simp add: created_targets_def map_filter_simps split: sum.splits)

lemma created_targets_set:
  "t \<in> set (created_targets e ps) \<longleftrightarrow> (\<exists>p \<in> set ps. fst (create_target_info e p) = Inr t)"
  by (induction ps) (auto simp: created_targets_Cons created_targets_def map_filter_simps split: sum.splits)

lemma find_targets_loop_result:
  "fst (find_targets_loop e ps (result, logs)) =
     foldl (\<lambda>d t. dict_set d (title t) t) result (created_targets e ps)"
proof (induction ps arbitrary: result logs)
  case Nil
  show ?case by (simp add: created_targets_def map_filter_simps)
next
  case (Cons p ps)
  show ?case
  proof (cases "create_target_info e p")
    case (Pair r l)
    then show ?thesis
      by (cases r) (simp_all add: Cons.IH created_targets_Cons)
  qed
qed

lemma find_targets_result:
  "fst (find_targets e) = dict_comprehension title (\<lambda>t. t) (created_targets e (candidate_paths e))"
  by (simp add: find_targets_def find_targets_loop_result dict_comprehension_def)

lemma find_targets_loop_log:
  "length (filter (\<lambda>l. l = LogException msg) (snd (find_targets_loop e ps (result, logs)))) =
     length (filter (\<lambda>l. l = LogException msg) logs)
     + (if msg = ''Could not create target info''
        then length (filter (\<lambda>p. isl (info_read e p)) ps) else 0)"
proof (induction ps arbitrary: result logs)
  case Nil
  show ?case by simp
next
  case (Cons p ps)
  show ?case
  proof (cases "create_target_info e p")
    case (Pair r l)
    have l: "filter (\<lambda>l. l = LogException msg) l = []"
      using create_target_info_log [of msg e p] Pair by (auto simp: filter_empty_conv)
    have i: "isl r = isl (info_read e p)"
      using create_target_info_error [of e p] Pair by simp
    show ?thesis
      using Pair l i by (cases r) (auto simp: Cons.IH)
  qed
qed

text \<open>
  Claim C7. A volume is a candidate exactly when it is listed and \<open>INFO_UF2.TXT\<close> is a
  file at its root. Every entry of the result was created from a candidate whose file
  could be read, and is keyed by its title. A candidate whose read or creation raises
  gives no entry: no target of the result has its path, and the scan goes on, so that
  the title of every candidate that can be read is a key of the result. Each failure is
  logged once. When the titles of the readable candidates are pairwise distinct, the
  result binds the title of each of them to its own target info.
\<close>

theorem find_targets_skips_failures:
  "(p \<in> set (candidate_paths e) \<longleftrightarrow> p \<in> set (list_volumes e) \<and> info_isfile e p)
   \<and> (\<forall>item \<in> set (fst (find_targets e)).
        \<exists>q \<in> set (candidate_paths e).
          fst (create_target_info e q) = Inr (snd item) \<and> path (snd item) = q
          \<and> \<not> isl (info_read e q) \<and> fst item = title (snd item))
   \<and> (\<forall>q \<in> set (candidate_paths e). \<forall>t. fst (create_target_info e q) = Inr t \<longrightarrow>
        title t \<in> set (dict_keys (fst (find_targets e))))
   \<and> (\<forall>q \<in> set (candidate_paths e). \<not> isl (info_read e q) \<longrightarrow>
        (\<exists>t. fst (create_target_info e q) = Inr t))
   \<and> (\<forall>q \<in> set (candidate_paths e). isl (info_read e q) \<longrightarrow>
        isl (fst (create_target_info e q))
        \<and> (\<forall>item \<in> set (fst (find_targets e)). path (snd item) \<noteq> q))
   \<and> length (filter (\<lambda>l. l = LogException ''Could not create target info'')
         (snd (find_targets e)))
       = length (filter (\<lambda>q. isl (info_read e q)) (candidate_paths e))
   \<and> (distinct (map title (created_targets e (candidate_paths e))) \<longrightarrow>
        (\<forall>q \<in> set (candidate_paths e). \<forall>t. fst (create_target_info e q) = Inr t \<longrightarrow>
           dict_get (fst (find_targets e)) (title t) = Some t))"
proof (intro conjI ballI allI impI)
  show "p \<in> set (candidate_paths e) \<longleftrightarrow> p \<in> set (list_volumes e) \<and> info_isfile e p"
    by (auto simp: candidate_paths_def)
next
  fix item assume "item \<in> set (fst (find_targets e))"
  then have "(fst item, snd item) \<in> set (dict_comprehension title (\<lambda>t. t)
      (created_targets e (candidate_paths e)))"
    by (simp add: find_targets_result)
  then obtain t where t: "t \<in> set (created_targets e (candidate_paths e))"
      "fst item = title t" "snd item = t"
    using dict_comprehension_entry_from [of "fst item" "snd item" title "\<lambda>t. t"]
    by auto
  then obtain q where q: "q \<in> set (candidate_paths e)" "fst (create_target_info e q) = Inr t"
    by (auto simp: created_targets_set)
  with t create_target_info_fields [OF q(2)]
  show "\<exists>q \<in> set (candidate_paths e).
          fst (create_target_info e q) = Inr (snd item) \<and> path (snd item) = q
          \<and> \<not> isl (info_read e q) \<and> fst item = title (snd item)"
    by auto
next
  fix q t assume "q \<in> set (candidate_paths e)" "fst (create_target_info e q) = Inr t"
  then have "t \<in> set (created_targets e (candidate_paths e))"
    by (auto simp: created_targets_set)
  then have "title t \<in> title ` set (created_targets e (candidate_paths e))"
    by (rule imageI)
  then show "title t \<in> set (dict_keys (fst (find_targets e)))"
    by (simp add: find_targets_result dict_keys_def dict_comprehension_key_set)
next
  fix q assume "\<not> isl (info_read e q)"
  then have "\<not> isl (fst (create_target_info e q))"
    by (simp add: create_target_info_error)
  then show "\<exists>t. fst (create_target_info e q) = Inr t"
    by (cases "fst (create_target_info e q)") simp_all
next
  fix q assume "isl (info_read e q)"
  then show "isl (fst (create_target_info e q))"
    by (simp add: create_target_info_error)
next
  fix q item
  assume f: "isl (info_read e q)" and "item \<in> set (fst (find_targets e))"
  then have "(fst item, snd item) \<in> set (dict_comprehension title (\<lambda>t. t)
      (created_targets e (candidate_paths e)))"
    by (simp add: find_targets_result)
  then have "snd item \<in> set (created_targets e (candidate_paths e))"
    using dict_comprehension_entry_from [of "fst item" "snd item" title "\<lambda>t. t"]
    by auto
  then obtain r where "fst (create_target_info e r) = Inr (snd item)"
    by (auto simp: created_targets_set)
  then have "path (snd item) = r \<and> \<not> isl (info_read e r)"
    using create_target_info_fields by blast
  with f show "path (snd item) \<noteq> q" by auto
next
  show "length (filter (\<lambda>l. l = LogException ''Could not create target info'')
         (snd (find_targets e)))
       = length (filter (\<lambda>q. isl (info_read e q)) (candidate_paths e))"
    by (simp add: find_targets_def find_targets_loop_log)
next
  fix q t
  assume d: "distinct (map title (created_targets e (candidate_paths e)))"
    and "q \<in> set (candidate_paths e)" "fst (create_target_info e q) = Inr t"
  then have t: "t \<in> set (created_targets e (candidate_paths e))"
    by (auto simp: created_targets_set)
  have "fst (find_targets e) = map (\<lambda>t. (title t, t)) (created_targets e (candidate_paths e))"
    by (simp add: find_targets_result dict_comprehension_distinct_keys [OF d])
  moreover have "distinct (map fst (map (\<lambda>t. (title t, t)) (created_targets e (candidate_paths e))))"
    using d by (simp add: comp_def)
  ultimately show "dict_get (fst (find_targets e)) (title t) = Some t"
    using t by (simp add: dict_get_def)
qed

theorem find_targets_skips_failures_witness:
  "''/media/B'' \<in> set (candidate_paths example_volumes)
   \<and> isl (info_read example_volumes ''/media/B'')
   \<and> ''/media/D'' \<in> set (candidate_paths example_volumes)
   \<and> distinct (map title (created_targets example_volumes (candidate_paths example_volumes)))
   \<and> fst (create_target_info example_volumes ''/media/D'')
       = Inr \<lparr>title = ''/media/D'', path = ''/media/D'', family = None,
               model = Some ''Foo Board'', board_id = None\<rparr>
   \<and> dict_get (fst (find_targets example_volumes)) ''/media/D''
       = Some \<lparr>title = ''/media/D'', path = ''/media/D'', family = None,
                model = Some ''Foo Board'', board_id = None\<rparr>
   \<and> dict_keys (fst (find_targets example_volumes)) = [''/media/A'', ''/media/D'']
   \<and> length (filter (\<lambda>l. l = LogException ''Could not create target info'')
         (snd (find_targets example_volumes))) = 1"
proof -
  let ?d = "\<lparr>title = ''/media/D'', path = ''/media/D'', family = None,
             model = Some ''Foo Board'', board_id = None\<rparr>"
  have vols: "list_volumes example_volumes = [''/media/A'', ''/media/B'', ''/media/C'', ''/media/D'']"
    by (simp add: example_volumes_def)
  have isf: "info_isfile example_volumes ''/media/B''" "info_isfile example_volumes ''/media/D''"
    by (simp_all add: example_volumes_def)
  have bad: "isl (info_read example_volumes ''/media/B'')"
    by (simp add: example_volumes_def)
  have cand: "candidate_paths example_volumes = [''/media/A'', ''/media/B'', ''/media/D'']"
    by code_simp
  have dist: "distinct (map title (created_targets example_volumes (candidate_paths example_volumes)))"
    by code_simp
  have cd: "fst (create_target_info example_volumes ''/media/D'') = Inr ?d"
    by code_simp
  have keys: "dict_keys (fst (find_targets example_volumes)) = [''/media/A'', ''/media/D'']"
    by code_simp
  have failing: "length (filter (\<lambda>q. isl (info_read example_volumes q))
      [''/media/A'', ''/media/B'', ''/media/D'']) = 1"
    by (simp add: example_volumes_def)
  note tb = find_targets_skips_failures [of "''/media/B''" example_volumes]
  note td = find_targets_skips_failures [of "''/media/D''" example_volumes]
  from tb vols isf have b: "''/media/B'' \<in> set (candidate_paths example_volumes)"
    by simp
  from td vols isf have d: "''/media/D'' \<in> set (candidate_paths example_volumes)"
    by simp
  from td dist d cd have get: "dict_get (fst (find_targets example_volumes)) (title ?d) = Some ?d"
    by blast
  from tb have "length (filter (\<lambda>l. l = LogException ''Could not create target info'')
         (snd (find_targets example_volumes)))
       = length (filter (\<lambda>q. isl (info_read example_volumes q)) (candidate_paths example_volumes))"
    by blast
  then have n: "length (filter (\<lambda>l. l = LogException ''Could not create target info'')
         (snd (find_targets example_volumes))) = 1"
    unfolding cand failing .
  from b bad d dist cd get keys n show ?thesis by simp
qed

section \<open>Idempotence of the refresh\<close>

lemma dict_eq_refl: "dict_eq d d"
  by (simp add: dict_eq_def)

lemma picker_mapping:
  "mapping (set_mapping m c) = m"
  "mapping (select_value v c) = mapping c"
  "mapping (select_none c) = mapping c"
  by (simp_all add: set_mapping_def select_value_def select_none_def split: option.splits)

lemma show_new_targets_shown: "mapping (target_combo (show_new_targets targets s)) = targets"
  by (simp add: show_new_targets_def Let_def picker_mapping split: list.splits)

lemma refresh_targets_shown:
  "dict_eq (fst (find_targets e)) (mapping (target_combo (refresh_targets e s)))"
  by (simp add: refresh_targets_def split_beta Let_def show_new_targets_shown dict_eq_refl)

lemma refresh_targets_same:
  "dict_eq (fst (find_targets e)) (mapping (target_combo s)) \<Longrightarrow>
     refresh_targets e s = s\<lparr>logged := logged s @ snd (find_targets e)\<rparr>"
  by (simp add: refresh_targets_def split_beta Let_def)

lemma refresh_variants_settles:
  "\<exists>sv. refresh_variants s = Inr sv \<and> variants_settled sv
        \<and> target_combo sv = target_combo s"
proof (cases "get_selected_value (target_combo s)")
  case None
  then show ?thesis
    by (simp add: refresh_variants_def variants_settled_def set_mapping_def select_none_def)
next
  case (Some t)
  show ?thesis
  proof (cases "Some t \<noteq> last_handled_target s \<and> downloaded_variants s \<noteq> []")
    case True
    then have "downloaded_variants s \<noteq> []" by simp
    from handle_new_target_result [OF this, of t]
    obtain c where "handle_new_target t s = Inr (s\<lparr>variant_combo := c\<rparr>)"
      by blast
    with Some True show ?thesis
      by (simp add: refresh_variants_def variants_settled_def)
  next
    case False
    with Some show ?thesis
      by (auto simp: refresh_variants_def variants_settled_def)
  qed
qed

lemma refresh_variants_same: "variants_settled s \<Longrightarrow> refresh_variants s = Inr s"
  by (cases "variant_combo s")
     (auto simp: refresh_variants_def variants_settled_def set_mapping_def select_none_def
        split: option.splits)

lemma refresh_versions_settles: "versions_settled (refresh_versions s)"
  by (cases "dict_values (versions_mapping (the (get_selected_value (variant_combo s))))")
     (auto simp: refresh_versions_def versions_settled_def set_mapping_def select_none_def
        handle_new_variant_def Let_def split: option.splits list.splits)

lemma refresh_versions_same: "versions_settled s \<Longrightarrow> refresh_versions s = s"
  by (cases "version_combo s")
     (auto simp: refresh_versions_def versions_settled_def set_mapping_def select_none_def
        split: option.splits)

lemma update_target_info_frame:
  "target_combo (update_target_info s) = target_combo s"
  "variant_combo (update_target_info s) = variant_combo s"
  "version_combo (update_target_info s) = version_combo s"
  "last_handled_target (update_target_info s) = last_handled_target s"
  "last_handled_variant (update_target_info s) = last_handled_variant s"
  "downloaded_variants (update_target_info s) = downloaded_variants s"
  "state (update_target_info s) = state s"
  by (simp_all add: update_target_info_def split_beta)

lemma update_variant_info_frame:
  "target_combo (update_variant_info s) = target_combo s"
  "variant_combo (update_variant_info s) = variant_combo s"
  "version_combo (update_variant_info s) = version_combo s"
  "last_handled_target (update_variant_info s) = last_handled_target s"
  "last_handled_variant (update_variant_info s) = last_handled_variant s"
  "downloaded_variants (update_variant_info s) = downloaded_variants s"
  "state (update_variant_info s) = state s"
  "target_info_label (update_variant_info s) = target_info_label s"
  "target_info_content_label (update_variant_info s) = target_info_content_label s"
  by (simp_all add: update_variant_info_def split_beta)

lemma refresh_versions_frame:
  "target_combo (refresh_versions s) = target_combo s"
  "variant_combo (refresh_versions s) = variant_combo s"
  "last_handled_target (refresh_versions s) = last_handled_target s"
  "downloaded_variants (refresh_versions s) = downloaded_variants s"
  "state (refresh_versions s) = state s"
  "target_info_label (refresh_versions s) = target_info_label s"
  "target_info_content_label (refresh_versions s) = target_info_content_label s"
  by (simp_all add: refresh_versions_def handle_new_variant_def Let_def
      split: option.splits list.splits)

lemma refresh_targets_frame:
  "state (refresh_targets e s) = state s"
  by (simp add: refresh_targets_def show_new_targets_def split_beta Let_def split: list.splits)

lemma refresh_variants_frame:
  "refresh_variants s = Inr sv \<Longrightarrow> state sv = state s"
  by (auto simp: refresh_variants_def handle_new_target_def Let_def
      split: option.splits if_splits list.splits sum.splits)

lemma update_target_info_current:
  assumes "target_combo s = target_combo x"
    and "target_info_label s = target_info_label (update_target_info x)"
    and "target_info_content_label s = target_info_content_label (update_target_info x)"
  shows "update_target_info s = s"
proof -
  have "target_info_label s = snd (target_info_text (target_combo s))"
    "target_info_content_label s = fst (target_info_text (target_combo s))"
    using assms by (simp_all add: update_target_info_def split_beta)
  then show ?thesis
    by (simp add: update_target_info_def split_beta)
qed

lemma update_variant_info_idem:
  "update_variant_info (update_variant_info s) = update_variant_info s"
  by (simp add: update_variant_info_def split_beta)

lemma logged_settled:
  "variants_settled (s\<lparr>logged := l\<rparr>) = variants_settled s"
  "versions_settled (s\<lparr>logged := l\<rparr>) = versions_settled s"
  by (simp_all add: variants_settled_def versions_settled_def split: option.splits)

lemma logged_labels:
  "update_target_info (s\<lparr>logged := l\<rparr>) = (update_target_info s)\<lparr>logged := l\<rparr>"
  "update_variant_info (s\<lparr>logged := l\<rparr>) = (update_variant_info s)\<lparr>logged := l\<rparr>"
  by (simp_all add: update_target_info_def update_variant_info_def split_beta)

lemma update_ui_settled:
  assumes "state s = ''idle''"
    and "dict_eq (fst (find_targets e)) (mapping (target_combo s))"
    and "variants_settled s" and "versions_settled s"
    and "update_target_info s = s" and "update_variant_info s = s"
  shows "update_ui e s = Inr (s\<lparr>logged := logged s @ snd (find_targets e)\<rparr>)"
proof -
  let ?s = "s\<lparr>logged := logged s @ snd (find_targets e)\<rparr>"
  have "refresh_targets e s = ?s"
    using assms(2) by (rule refresh_targets_same)
  moreover have "refresh_variants ?s = Inr ?s"
    using assms(3) by (simp add: refresh_variants_same logged_settled)
  moreover have "update_target_info ?s = ?s"
    using assms(5) by (simp add: logged_labels)
  moreover have "refresh_versions ?s = ?s"
    using assms(4) by (simp add: refresh_versions_same logged_settled)
  moreover have "update_variant_info ?s = ?s"
    using assms(6) by (simp add: logged_labels)
  ultimately show ?thesis
    using assms(1) by (simp add: update_ui_def)
qed

lemma update_ui_settles:
  assumes "state s = ''idle''"
  shows "\<exists>s1. update_ui e s = Inr s1 \<and> state s1 = ''idle''
           \<and> dict_eq (fst (find_targets e)) (mapping (target_combo s1))
           \<and> variants_settled s1 \<and> versions_settled s1
           \<and> update_target_info s1 = s1 \<and> update_variant_info s1 = s1"
proof -
  obtain sv where sv: "refresh_variants (refresh_targets e s) = Inr sv"
      "variants_settled sv" "target_combo sv = target_combo (refresh_targets e s)"
    using refresh_variants_settles [of "refresh_targets e s"] by blast
  let ?s1 = "update_variant_info (refresh_versions (update_target_info sv))"
  have u: "update_ui e s = Inr ?s1"
    using assms sv(1) by (simp add: update_ui_def)
  have st: "state ?s1 = ''idle''"
    using assms refresh_variants_frame [OF sv(1)]
    by (simp add: update_variant_info_frame refresh_versions_frame update_target_info_frame
          refresh_targets_frame)
  have tc: "target_combo ?s1 = target_combo (refresh_targets e s)"
    using sv(3)
    by (simp add: update_variant_info_frame refresh_versions_frame update_target_info_frame)
  have shown: "dict_eq (fst (find_targets e)) (mapping (target_combo ?s1))"
    unfolding tc by (rule refresh_targets_shown)
  have vs: "variants_settled ?s1"
    using sv(2)
    by (simp add: variants_settled_def update_variant_info_frame refresh_versions_frame
          update_target_info_frame split: option.splits)
  have "versions_settled (refresh_versions (update_target_info sv))"
    by (rule refresh_versions_settles)
  then have ws: "versions_settled ?s1"
    by (simp add: versions_settled_def update_variant_info_frame split: option.splits)
  have ti: "update_target_info ?s1 = ?s1"
    by (rule update_target_info_current [of _ sv])
       (simp_all add: update_variant_info_frame refresh_versions_frame update_target_info_frame)
  have vi: "update_variant_info ?s1 = ?s1"
    by (rule update_variant_info_idem)
  from u st shown vs ws ti vi show ?thesis by blast
qed

text \<open>
  Claim C5. A refresh always returns, and a second refresh right after it, with the
  same volumes and catalogue and no input in between, leaves the three pickers as the
  first left them: the shown mappings and the selections of targets, variants and
  versions are the same, and so are the two markers of what was handled last and the
  texts of the labels.
\<close>

theorem update_ui_idempotent:
  "\<exists>s1 s2. update_ui e s = Inr s1 \<and> update_ui e s1 = Inr s2
     \<and> target_combo s2 = target_combo s1
     \<and> variant_combo s2 = variant_combo s1
     \<and> version_combo s2 = version_combo s1
     \<and> last_handled_target s2 = last_handled_target s1
     \<and> last_handled_variant s2 = last_handled_variant s1
     \<and> target_info_label s2 = target_info_label s1
     \<and> target_info_content_label s2 = target_info_content_label s1
     \<and> variant_info_content_label s2 = variant_info_content_label s1"
proof (cases "state s = ''idle''")
  case True
  from update_ui_settles [OF True, of e]
  obtain s1 where s1: "update_ui e s = Inr s1" "state s1 = ''idle''"
      "dict_eq (fst (find_targets e)) (mapping (target_combo s1))"
      "variants_settled s1" "versions_settled s1"
      "update_target_info s1 = s1" "update_variant_info s1 = s1"
    by blast
  have s2: "update_ui e s1 = Inr (s1\<lparr>logged := logged s1 @ snd (find_targets e)\<rparr>)"
    using s1(2-7) by (rule update_ui_settled)
  from s1(1) s2 show ?thesis by simp
next
  case False
  then have "update_ui e s = Inr s"
    by (simp add: update_ui_def)
  then show ?thesis by simp
qed

theorem update_ui_idempotent_witness:
  "\<exists>s1 s2. update_ui (example_env ''Board-ID: RPI-RP2'') (example_flasher None) = Inr s1
     \<and> update_ui (example_env ''Board-ID: RPI-RP2'') s1 = Inr s2
     \<and> dict_keys (mapping (target_combo s1)) = [''/media/RPI-RP2'']
     \<and> dict_values (mapping (variant_combo s1))
         = [example_variant ''Pi'' ''Pico'' ''rp2'', example_variant ''Pi'' ''Pico W'' ''rp2040'']
     \<and> target_combo s2 = target_combo s1
     \<and> variant_combo s2 = variant_combo s1
     \<and> version_combo s2 = version_combo s1"
proof -
  let ?e = "example_env ''Board-ID: RPI-RP2''"
  from update_ui_idempotent [of ?e "example_flasher None"]
  obtain s1 s2 where s: "update_ui ?e (example_flasher None) = Inr s1"
      "update_ui ?e s1 = Inr s2" "target_combo s2 = target_combo s1"
      "variant_combo s2 = variant_combo s1" "version_combo s2 = version_combo s1"
    by blast
  have "map_sum (\<lambda>err. err) (\<lambda>s. (dict_keys (mapping (target_combo s)),
            dict_values (mapping (variant_combo s)))) (update_ui ?e (example_flasher None))
        = Inr ([''/media/RPI-RP2''],
               [example_variant ''Pi'' ''Pico'' ''rp2'', example_variant ''Pi'' ''Pico W'' ''rp2040''])"
    by code_simp
  with s(1) have "dict_keys (mapping (target_combo s1)) = [''/media/RPI-RP2'']
     \<and> dict_values (mapping (variant_combo s1))
         = [example_variant ''Pi'' ''Pico'' ''rp2'', example_variant ''Pi'' ''Pico W'' ''rp2040'']"
    by simp
  with s show ?thesis by blast
qed

section \<open>The downloading message\<close>

lemma refresh_targets_catalog:
  "downloaded_variants (refresh_targets e s) = downloaded_variants s"
  "variant_combo (refresh_targets e s) = variant_combo s"
  by (simp_all add: refresh_targets_def show_new_targets_def split_beta Let_def
      split: list.splits)

lemma refresh_variants_catalog:
  "refresh_variants s = Inr sv \<Longrightarrow> downloaded_variants sv = downloaded_variants s"
  by (auto simp: refresh_variants_def handle_new_target_def Let_def
      split: option.splits if_splits list.splits sum.splits)

lemma variant_info_text_downloading:
  "variant_info_text variants combo = (''[downloading variants info ...]'', None)
     \<longleftrightarrow> variants = []"
  by (simp add: variant_info_text_def split: option.splits)

text \<open>
  Claim C1, as stated, fails: the dialog has no flag for a completed fetch. After a fetch
  that succeeded with an empty array, and after a fetch that failed, a refresh of the
  new dialog still shows the downloading message.
\<close>

theorem downloading_message_after_fetch_counterexample:
  "map_sum (\<lambda>err. err) variant_info_content_label
     (update_ui (example_env ''Board-ID: RPI-RP2'') (download_variants (Fetched []) new_flasher))
     = Inr (''[downloading variants info ...]'', None)
   \<and> map_sum (\<lambda>err. err) variant_info_content_label
     (update_ui (example_env ''Board-ID: RPI-RP2'') (download_variants FetchFailed new_flasher))
     = Inr (''[downloading variants info ...]'', None)"
  by code_simp

text \<open>
  Claim C1, amended. The stored catalogue is all the dialog keeps of the fetch: a fetch
  that succeeds stores what it parsed, a fetch that fails stores nothing, and the new
  dialog holds the empty catalogue. A refresh of the idle dialog returns, leaves the
  catalogue as it is, and shows the downloading message without a link exactly when the
  stored catalogue is empty. So the message is not shown after a fetch that stored a
  catalogue that is not empty, and is shown before the fetch finishes, after a fetch
  of an empty array and after a failed fetch alike.
\<close>

theorem downloading_message_iff_empty_catalog:
  "downloaded_variants new_flasher = []
   \<and> downloaded_variants (download_variants (Fetched variants) s) = variants
   \<and> downloaded_variants (download_variants FetchFailed s) = downloaded_variants s
   \<and> (state s = ''idle'' \<longrightarrow>
        (\<exists>s'. update_ui e s = Inr s'
           \<and> downloaded_variants s' = downloaded_variants s
           \<and> (variant_info_content_label s' = (''[downloading variants info ...]'', None)
                \<longleftrightarrow> downloaded_variants s = [])))"
proof (intro conjI impI)
  show "downloaded_variants new_flasher = []"
    by (simp add: new_flasher_def)
  show "downloaded_variants (download_variants (Fetched variants) s) = variants"
    by (simp add: download_variants_def)
  show "downloaded_variants (download_variants FetchFailed s) = downloaded_variants s"
    by (simp add: download_variants_def Let_def)
next
  assume idle: "state s = ''idle''"
  obtain sv where sv: "refresh_variants (refresh_targets e s) = Inr sv"
    using refresh_variants_settles [of "refresh_targets e s"] by blast
  let ?s' = "update_variant_info (refresh_versions (update_target_info sv))"
  have u: "update_ui e s = Inr ?s'"
    using idle sv by (simp add: update_ui_def)
  have c: "downloaded_variants (refresh_versions (update_target_info sv)) = downloaded_variants s"
    using refresh_variants_catalog [OF sv]
    by (simp add: refresh_versions_frame update_target_info_frame refresh_targets_catalog)
  then have c': "downloaded_variants ?s' = downloaded_variants s"
    by (simp add: update_variant_info_frame)
  have "variant_info_content_label ?s'
      = variant_info_text (downloaded_variants s)
          (variant_combo (refresh_versions (update_target_info sv)))"
    by (simp add: update_variant_info_def split_beta c)
  then have l: "variant_info_content_label ?s' = (''[downloading variants info ...]'', None)
      \<longleftrightarrow> downloaded_variants s = []"
    by (simp add: variant_info_text_downloading)
  show "\<exists>s'. update_ui e s = Inr s'
           \<and> downloaded_variants s' = downloaded_variants s
           \<and> (variant_info_content_label s' = (''[downloading variants info ...]'', None)
                \<longleftrightarrow> downloaded_variants s = [])"
    by (rule exI [of _ ?s']) (rule conjI [OF u conjI [OF c' l]])
qed

theorem downloading_message_iff_empty_catalog_witness:
  "state (download_variants (Fetched example_catalog) new_flasher) = ''idle''
   \<and> downloaded_variants (download_variants (Fetched example_catalog) new_flasher) \<noteq> []
   \<and> (\<exists>s'. update_ui (example_env ''Board-ID: RPI-RP2'')
               (download_variants (Fetched example_catalog) new_flasher) = Inr s'
          \<and> variant_info_content_label s' \<noteq> (''[downloading variants info ...]'', None))
   \<and> state (download_variants FetchFailed new_flasher) = ''idle''
   \<and> (\<exists>s'. update_ui (example_env ''Board-ID: RPI-RP2'')
               (download_variants FetchFailed new_flasher) = Inr s'
          \<and> variant_info_content_label s' = (''[downloading variants info ...]'', None))"
proof -
  let ?e = "example_env ''Board-ID: RPI-RP2''"
  let ?ok = "download_variants (Fetched example_catalog) new_flasher"
  let ?bad = "download_variants FetchFailed new_flasher"
  have i1: "state ?ok = ''idle''"
    by (simp add: download_variants_def new_flasher_def)
  have i2: "state ?bad = ''idle''"
    by (simp add: download_variants_def new_flasher_def Let_def)
  note t0 = downloading_message_iff_empty_catalog [of example_catalog new_flasher ?e]
  note t1 = downloading_message_iff_empty_catalog [of example_catalog ?ok ?e]
  note t2 = downloading_message_iff_empty_catalog [of example_catalog ?bad ?e]
  have c1: "downloaded_variants ?ok \<noteq> []"
    using t0 by (simp add: example_catalog_def)
  have c2: "downloaded_variants ?bad = []"
    using t0 by simp
  from t1 i1 c1 have g1: "\<exists>s'. update_ui ?e ?ok = Inr s'
          \<and> variant_info_content_label s' \<noteq> (''[downloading variants info ...]'', None)"
    by blast
  from t2 i2 c2 have g2: "\<exists>s'. update_ui ?e ?bad = Inr s'
          \<and> variant_info_content_label s' = (''[downloading variants info ...]'', None)"
    by blast
  from i1 c1 g1 i2 g2 show ?thesis by blast
qed

end
